theory Spec2Isabelle
  imports Complex_Main "HOL-Library.Monad_Syntax"
begin

section \<open>JavaScript values\<close>

text \<open>
  The two Node.js servers and the browser script exchange JSON. A JavaScript value is
  modelled by the datatype \<open>jsval\<close>; a number is a rational (every finite double is
  one), one of the two infinities, or NaN. The two zeros of IEEE arithmetic are identified,
  as \<open>===\<close> identifies them, and arithmetic on finite numbers is exact.
  A string is a list of characters, an object is the list of its own properties with
  distinct names, in the order in which the runtime enumerates them: the integer-like
  names in ascending order, then the other names in the order of their insertion.
\<close>

datatype jsnumber = NaN | NegInf | Fin rat | PosInf

datatype jsval =
    JUndefined
  | JNull
  | JBool bool
  | JNum jsnumber
  | JStr string
  | JArr "jsval list"
  | JObj "(string \<times> jsval) list"

text \<open>\<open>x < 0\<close> on numbers: every comparison with NaN is false.\<close>

fun lt_zero :: "jsnumber \<Rightarrow> bool" where
  "lt_zero NaN = False"
| "lt_zero NegInf = True"
| "lt_zero (Fin q) = (q < 0)"
| "lt_zero PosInf = False"

fun isNaN :: "jsnumber \<Rightarrow> bool" where
  "isNaN NaN = True"
| "isNaN _ = False"

text \<open>\<open>Number.isInteger\<close>: a finite number with no fractional part.\<close>

fun isInteger :: "jsnumber \<Rightarrow> bool" where
  "isInteger (Fin q) = (of_int \<lfloor>q\<rfloor> = q)"
| "isInteger _ = False"

text \<open>\<open>typeof v === 'number'\<close> and \<open>Array.isArray(v)\<close>.\<close>

fun is_number :: "jsval \<Rightarrow> bool" where
  "is_number (JNum _) = True"
| "is_number _ = False"

fun isArray :: "jsval \<Rightarrow> bool" where
  "isArray (JArr _) = True"
| "isArray _ = False"

text \<open>
  Truthiness, as \<open>!v\<close> and \<open>if (v)\<close> test it: \<open>undefined\<close>, \<open>null\<close>, \<open>false\<close>,
  zero, NaN and the empty string are falsy, every array and object is truthy.
\<close>

fun truthy :: "jsval \<Rightarrow> bool" where
  "truthy JUndefined = False"
| "truthy JNull = False"
| "truthy (JBool b) = b"
| "truthy (JNum NaN) = False"
| "truthy (JNum (Fin q)) = (q \<noteq> 0)"
| "truthy (JNum _) = True"
| "truthy (JStr s) = (s \<noteq> [])"
| "truthy (JArr _) = True"
| "truthy (JObj _) = True"

text \<open>Decimal digits of a natural number, as \<open>String(n)\<close> prints an index.\<close>

definition digit :: "nat \<Rightarrow> char" where
  "digit d = ''0123456789'' ! d"

fun dec :: "nat \<Rightarrow> string" where
  "dec n = (if n < 10 then [digit n] else dec (n div 10) @ [digit (n mod 10)])"

declare dec.simps [simp del]

text \<open>
  Reading a property. \<open>v.name\<close> and \<open>v[i]\<close> throw a TypeError on \<open>undefined\<close> and
  \<open>null\<close> (the result \<open>None\<close>) and give \<open>undefined\<close> where the property does not
  exist. The names this program reads (\<open>p1\<close>, \<open>p2\<close>, \<open>speed_kmh\<close>, the request fields)
  are not properties of a builtin prototype, so only own properties are looked up.
\<close>

definition own_prop :: "(string \<times> jsval) list \<Rightarrow> string \<Rightarrow> jsval" where
  "own_prop kvs name = (case map_of kvs name of Some v \<Rightarrow> v | None \<Rightarrow> JUndefined)"

fun get_prop :: "jsval \<Rightarrow> string \<Rightarrow> jsval option" where
  "get_prop JUndefined name = None"
| "get_prop JNull name = None"
| "get_prop (JObj kvs) name = Some (own_prop kvs name)"
| "get_prop _ name = Some JUndefined"

fun get_index :: "jsval \<Rightarrow> nat \<Rightarrow> jsval option" where
  "get_index JUndefined i = None"
| "get_index JNull i = None"
| "get_index (JArr xs) i = Some (if i < length xs then xs ! i else JUndefined)"
| "get_index (JStr s) i = Some (if i < length s then JStr [s ! i] else JUndefined)"
| "get_index (JObj kvs) i = Some (own_prop kvs (dec i))"
| "get_index _ i = Some JUndefined"

fun arr_length :: "jsval \<Rightarrow> nat" where
  "arr_length (JArr xs) = length xs"
| "arr_length _ = 0"

section \<open>The builtins of the runtime\<close>

text \<open>
  The functions of the JavaScript runtime that the servers call on text are parameters of
  the model: \<open>JSON.parse\<close> (\<open>None\<close> when it throws a SyntaxError), \<open>JSON.stringify\<close>,
  \<open>parseInt(s, 10)\<close>, \<open>parseFloat(s)\<close> (both give NaN on text that starts with no
  number) and \<open>String(v)\<close>.
\<close>

record builtins =
  JSON_parse :: "string \<Rightarrow> jsval option"
  JSON_stringify :: "jsval \<Rightarrow> string"
  parseInt10 :: "string \<Rightarrow> jsnumber"
  parseFloat :: "string \<Rightarrow> jsnumber"
  String_of :: "jsval \<Rightarrow> string"

section \<open>web-config/node-js/server.js\<close>

subsection \<open>Topics and the stored configuration\<close>

definition MQTT_TOPIC_CONFIG_START :: string where
  "MQTT_TOPIC_CONFIG_START = ''config/start_line''"

definition MQTT_TOPIC_CONFIG_FINISH :: string where
  "MQTT_TOPIC_CONFIG_FINISH = ''config/finish_line''"

definition MQTT_TOPIC_CONFIG_LAP :: string where
  "MQTT_TOPIC_CONFIG_LAP = ''config/lap_line''"

definition MQTT_TOPIC_CONFIG_TOTAL_LAPS :: string where
  "MQTT_TOPIC_CONFIG_TOTAL_LAPS = ''config/total_laps''"

definition MQTT_TOPIC_IDEAL_TIME :: string where
  "MQTT_TOPIC_IDEAL_TIME = ''config/ideal_time''"

definition configTopics :: "string list" where
  "configTopics = [MQTT_TOPIC_CONFIG_START, MQTT_TOPIC_CONFIG_FINISH, MQTT_TOPIC_CONFIG_LAP,
     MQTT_TOPIC_CONFIG_TOTAL_LAPS, MQTT_TOPIC_IDEAL_TIME]"

lemmas topic_defs = MQTT_TOPIC_CONFIG_START_def MQTT_TOPIC_CONFIG_FINISH_def
  MQTT_TOPIC_CONFIG_LAP_def MQTT_TOPIC_CONFIG_TOTAL_LAPS_def MQTT_TOPIC_IDEAL_TIME_def

text \<open>
  \<open>currentConfig\<close>: the latest payload string received on each topic, \<open>null\<close>
  (here \<open>None\<close>) before the first message.
\<close>

type_synonym config_store = "string \<Rightarrow> string option"

definition initialConfig :: config_store where
  "initialConfig = (\<lambda>t. None)"

text \<open>The \<open>message\<close> handler of the MQTT client (lines 67-79).\<close>

definition on_message :: "string \<Rightarrow> string \<Rightarrow> config_store \<Rightarrow> config_store" where
  "on_message topic payload currentConfig =
     (if topic \<in> set configTopics then currentConfig(topic := Some payload)
      else currentConfig)"

subsection \<open>HTTP responses\<close>

record response =
  status :: nat
  message :: string
  details :: "string list option"

text \<open>
  The object given to \<open>res.send\<close>: \<open>{ message }\<close> or \<open>{ message, details }\<close>.
\<close>

definition response_body :: "response \<Rightarrow> jsval" where
  "response_body r =
     JObj ((''message'', JStr (message r))
           # (case details r of None \<Rightarrow> [] | Some ds \<Rightarrow> [(''details'', JArr (map JStr ds))]))"

subsection \<open>POST /api/set-lines: validation\<close>

text \<open>
  \<open>req.body\<close> is the object that \<open>express.json()\<close> parsed, given by its own properties;
  destructuring a field that is missing gives \<open>undefined\<close>.
\<close>

type_synonym body = "(string \<times> jsval) list"

definition bad_request :: "string \<Rightarrow> response" where
  "bad_request msg = \<lparr>status = 400, message = msg, details = None\<rparr>"

text \<open>The arrow function \<open>isValidPoint\<close> (line 190).\<close>

definition isValidPoint :: "jsval \<Rightarrow> bool" where
  "isValidPoint p =
     (isArray p \<and> arr_length p = 2
      \<and> (case get_index p 0 of Some v \<Rightarrow> is_number v | None \<Rightarrow> False)
      \<and> (case get_index p 1 of Some v \<Rightarrow> is_number v | None \<Rightarrow> False))"

definition elem :: "jsval \<Rightarrow> nat \<Rightarrow> jsval" where
  "elem v i = (case get_index v i of Some x \<Rightarrow> x | None \<Rightarrow> JUndefined)"

text \<open>
  Lines 183-201, in the order of the source: the first failing test answers 400.
  \<open>None\<close> means that the request passed validation.
\<close>

definition validate :: "body \<Rightarrow> response option" where
  "validate b =
     (let start = own_prop b ''start''; finish = own_prop b ''finish'';
          lap = own_prop b ''lap''; totalLaps = own_prop b ''totalLaps'';
          idealTime = own_prop b ''idealTime''
      in
      if \<not> truthy start \<or> \<not> truthy finish \<or> \<not> truthy lap then
        Some (bad_request ''Missing line data (start, finish, or lap).'')
      else if \<not> isArray start \<or> arr_length start \<noteq> 2 \<or> \<not> isArray finish
              \<or> arr_length finish \<noteq> 2 \<or> \<not> isArray lap \<or> arr_length lap \<noteq> 2 then
        Some (bad_request
          ''Incorrect line format. Each line must be an array of two [lat, lon] points.'')
      else if \<not> isValidPoint (elem start 0) \<or> \<not> isValidPoint (elem start 1)
              \<or> \<not> isValidPoint (elem finish 0) \<or> \<not> isValidPoint (elem finish 1)
              \<or> \<not> isValidPoint (elem lap 0) \<or> \<not> isValidPoint (elem lap 1) then
        Some (bad_request
          ''Incorrect point format within a line. Points must be [lat, lon] arrays.'')
      else if totalLaps = JUndefined \<or> totalLaps = JNull \<or> \<not> is_number totalLaps
              \<or> (case totalLaps of JNum n \<Rightarrow> lt_zero n \<or> \<not> isInteger n | _ \<Rightarrow> True) then
        Some (bad_request ''Invalid total laps value. Must be a whole number >= 0.'')
      else if idealTime = JUndefined \<or> idealTime = JNull \<or> \<not> is_number idealTime
              \<or> (case idealTime of JNum n \<Rightarrow> lt_zero n | _ \<Rightarrow> True) then
        Some (bad_request ''Invalid ideal time value. Must be a number >= 0.'')
      else None)"

subsection \<open>POST /api/set-lines: the publish tasks\<close>

text \<open>
  One call of \<open>mqttClient.publish(topic, payload, publishOptions, callback)\<close>, with
  \<open>publishOptions = { qos: 2, retain: true }\<close>.
\<close>

record publish_call =
  p_topic :: string
  p_payload :: string
  p_qos :: nat
  p_retain :: bool

definition publish :: "string \<Rightarrow> string \<Rightarrow> publish_call" where
  "publish t pl = \<lparr>p_topic = t, p_payload = pl, p_qos = 2, p_retain = True\<rparr>"

text \<open>
  The object given to \<open>JSON.stringify\<close> for a line (line 242): Leaflet's
  \<open>[lat, lon]\<close> becomes \<open>[lon, lat]\<close>. \<open>None\<close> when an index read throws.
\<close>

definition line_object :: "jsval \<Rightarrow> jsval option" where
  "line_object line = do {
     p \<leftarrow> get_index line 0;
     a \<leftarrow> get_index p 1;
     b \<leftarrow> get_index p 0;
     q \<leftarrow> get_index line 1;
     c \<leftarrow> get_index q 1;
     d \<leftarrow> get_index q 0;
     Some (JObj [(''p1'', JArr [a, b]), (''p2'', JArr [c, d])])
   }"

text \<open>
  What the synchronous part of the handler does: it answers at once, or it has issued
  the five publishes (in the order Start, Finish, Lap, Total Laps, Ideal Time) and
  waits for their callbacks, or an exception escapes it, which Express answers with
  its own 500.
\<close>

datatype outcome = Respond response | Publishing "publish_call list" | Throws

definition not_connected :: response where
  "not_connected = \<lparr>status = 500,
     message = ''MQTT client not connected. Cannot save configuration.'', details = None\<rparr>"

text \<open>
  Line 177, \<open>const { start, finish, lap, totalLaps, idealTime } = req.body\<close>: a
  TypeError (\<open>None\<close>) when \<open>req.body\<close> is \<open>undefined\<close> or \<open>null\<close>, as it is under
  Express 5 for a request with no parsed JSON body; else the fields that are read, which
  are own properties of an object and \<open>undefined\<close> on an array or a primitive value.
\<close>

fun destructure :: "jsval \<Rightarrow> body option" where
  "destructure JUndefined = None"
| "destructure JNull = None"
| "destructure (JObj kvs) = Some kvs"
| "destructure v = Some []"

text \<open>
  The handler from line 182 on, given the fields that line 177 has read.
\<close>

definition set_lines :: "builtins \<Rightarrow> bool \<Rightarrow> body \<Rightarrow> outcome" where
  "set_lines rt mqtt_connected b =
     (case validate b of
        Some r \<Rightarrow> Respond r
      | None \<Rightarrow>
          if \<not> mqtt_connected then Respond not_connected
          else
            (case line_object (own_prop b ''start'') of
               None \<Rightarrow> Throws
             | Some s \<Rightarrow>
            (case line_object (own_prop b ''finish'') of
               None \<Rightarrow> Throws
             | Some f \<Rightarrow>
            (case line_object (own_prop b ''lap'') of
               None \<Rightarrow> Throws
             | Some l \<Rightarrow>
                 Publishing
                   [publish MQTT_TOPIC_CONFIG_START (JSON_stringify rt s),
                    publish MQTT_TOPIC_CONFIG_FINISH (JSON_stringify rt f),
                    publish MQTT_TOPIC_CONFIG_LAP (JSON_stringify rt l),
                    publish MQTT_TOPIC_CONFIG_TOTAL_LAPS (String_of rt (own_prop b ''totalLaps'')),
                    publish MQTT_TOPIC_IDEAL_TIME (String_of rt (own_prop b ''idealTime''))]))))"


subsection \<open>POST /api/set-lines: completion tracking\<close>

text \<open>
  The variables of one request that the callbacks share (lines 219-222), with the list
  of the responses that \<open>res.send\<close> has been called with.
\<close>

record pending =
  errors :: "string list"
  successes :: nat
  responseSent :: bool
  sent :: "response list"

definition start_tracking :: pending where
  "start_tracking = \<lparr>errors = [], successes = 0, responseSent = False, sent = []\<rparr>"

definition totalTasks :: nat where
  "totalTasks = 3 + 2"

definition publish_failure :: "string list \<Rightarrow> response" where
  "publish_failure errs = \<lparr>status = 500,
     message = ''Error publishing some configuration parts.'', details = Some errs\<rparr>"

definition publish_success :: response where
  "publish_success = \<lparr>status = 200,
     message = ''All lines and config published successfully!'', details = None\<rparr>"

definition publish_timeout :: "string list \<Rightarrow> response" where
  "publish_timeout errs = \<lparr>status = 508,
     message = ''Timeout waiting for all MQTT publish confirmations. Some settings might not have saved.'',
     details = Some errs\<rparr>"

definition checkCompletion :: "pending \<Rightarrow> pending" where
  "checkCompletion st =
     (if responseSent st then st
      else if successes st + length (errors st) = totalTasks then
        (if length (errors st) > 0
         then st\<lparr>responseSent := True, sent := sent st @ [publish_failure (errors st)]\<rparr>
         else st\<lparr>responseSent := True, sent := sent st @ [publish_success]\<rparr>)
      else st)"

text \<open>The five tasks and the text that the callback of each pushes on an error.\<close>

datatype slot = Start | Finish | Lap | TotalLaps | IdealTime

fun slot_name :: "slot \<Rightarrow> string" where
  "slot_name Start = ''Start''"
| "slot_name Finish = ''Finish''"
| "slot_name Lap = ''Lap''"
| "slot_name TotalLaps = ''Total Laps''"
| "slot_name IdealTime = ''Ideal Time''"

fun slot_topic :: "slot \<Rightarrow> string" where
  "slot_topic Start = MQTT_TOPIC_CONFIG_START"
| "slot_topic Finish = MQTT_TOPIC_CONFIG_FINISH"
| "slot_topic Lap = MQTT_TOPIC_CONFIG_LAP"
| "slot_topic TotalLaps = MQTT_TOPIC_CONFIG_TOTAL_LAPS"
| "slot_topic IdealTime = MQTT_TOPIC_IDEAL_TIME"

fun is_line_slot :: "slot \<Rightarrow> bool" where
  "is_line_slot TotalLaps = False"
| "is_line_slot IdealTime = False"
| "is_line_slot _ = True"

definition failure_text :: "slot \<Rightarrow> string" where
  "failure_text sl =
     ''Failed '' @ slot_name sl @ (if is_line_slot sl then '' line.'' else '' config.'')"

text \<open>The callback of a publish (lines 245-254 and 262-271), \<open>err\<close> set or not.\<close>

definition publish_callback :: "slot \<Rightarrow> bool \<Rightarrow> pending \<Rightarrow> pending" where
  "publish_callback sl err st =
     checkCompletion
       (if err then st\<lparr>errors := errors st @ [failure_text sl]\<rparr>
        else st\<lparr>successes := successes st + 1\<rparr>)"

text \<open>The function given to \<open>setTimeout\<close> (lines 275-285).\<close>

definition timeout_callback :: "pending \<Rightarrow> pending" where
  "timeout_callback st =
     (if \<not> responseSent st
      then st\<lparr>responseSent := True, sent := sent st @ [publish_timeout (errors st)]\<rparr>
      else st)"

text \<open>
  After the synchronous part the event loop runs the callbacks one at a time, in the
  order in which the client and the timer deliver them.
\<close>

datatype event = Callback slot bool | TimeoutExpired

fun step :: "event \<Rightarrow> pending \<Rightarrow> pending" where
  "step (Callback sl err) st = publish_callback sl err st"
| "step TimeoutExpired st = timeout_callback st"

definition run :: "event list \<Rightarrow> pending \<Rightarrow> pending" where
  "run evs st = fold step evs st"

text \<open>All the responses of one request: of the synchronous part, or of its callbacks.\<close>

definition responses :: "builtins \<Rightarrow> bool \<Rightarrow> body \<Rightarrow> event list \<Rightarrow> response list" where
  "responses rt mqtt_connected b evs =
     (case set_lines rt mqtt_connected b of
        Respond r \<Rightarrow> [r]
      | Publishing ps \<Rightarrow> sent (run evs start_tracking)
      | Throws \<Rightarrow> [])"

text \<open>
  Two requests in flight: each call of the handler has its own \<open>errors\<close>,
  \<open>successes\<close> and \<open>responseSent\<close>, and a callback changes those of the request
  that created it (\<open>False\<close> tags the first request, \<open>True\<close> the second).
\<close>

fun step2 :: "bool \<times> event \<Rightarrow> pending \<times> pending \<Rightarrow> pending \<times> pending" where
  "step2 (second, e) (st1, st2) = (if second then (st1, step e st2) else (step e st1, st2))"

definition run2 :: "(bool \<times> event) list \<Rightarrow> pending \<times> pending \<Rightarrow> pending \<times> pending" where
  "run2 evs sts = fold step2 evs sts"

fun is_callback :: "event \<Rightarrow> bool" where
  "is_callback (Callback _ _) = True"
| "is_callback TimeoutExpired = False"

fun failed :: "event \<Rightarrow> bool" where
  "failed (Callback _ err) = err"
| "failed TimeoutExpired = False"

fun acked :: "event \<Rightarrow> bool" where
  "acked (Callback _ err) = (\<not> err)"
| "acked TimeoutExpired = False"

text \<open>The tasks whose callbacks run in \<open>evs\<close>, and those that report an error.\<close>

definition slots :: "event list \<Rightarrow> slot list" where
  "slots evs = concat (map (\<lambda>e. case e of Callback sl err \<Rightarrow> [sl] | TimeoutExpired \<Rightarrow> []) evs)"

definition failed_slots :: "event list \<Rightarrow> slot list" where
  "failed_slots evs =
     concat (map (\<lambda>e. case e of Callback sl err \<Rightarrow> if err then [sl] else []
                        | TimeoutExpired \<Rightarrow> []) evs)"

text \<open>The entries that the callbacks of \<open>evs\<close> push on \<open>errors\<close>, in their order.\<close>

definition failures :: "event list \<Rightarrow> string list" where
  "failures evs = concat (map (\<lambda>e. case e of Callback sl err \<Rightarrow> if err then [failure_text sl] else []
                                      | TimeoutExpired \<Rightarrow> []) evs)"

subsection \<open>The broker\<close>

text \<open>
  The retained store of the MQTT broker: a publish with the retain flag that the broker
  acknowledges replaces the retained payload of its topic, and the broker forwards it to
  the subscribers, of which this server is one (it subscribes to \<open>configTopics\<close>).
  A publish whose callback reports an error is taken as not applied.
\<close>

type_synonym retained = "string \<Rightarrow> string option"

definition retain :: "publish_call \<Rightarrow> retained \<Rightarrow> retained" where
  "retain p m = (if p_retain p then m(p_topic p := Some (p_payload p)) else m)"

fun slot_index :: "slot \<Rightarrow> nat" where
  "slot_index Start = 0"
| "slot_index Finish = 1"
| "slot_index Lap = 2"
| "slot_index TotalLaps = 3"
| "slot_index IdealTime = 4"

text \<open>The publishes of \<open>ps\<close> that \<open>evs\<close> acknowledges without error, in that order.\<close>

definition acknowledged :: "publish_call list \<Rightarrow> event list \<Rightarrow> publish_call list" where
  "acknowledged ps evs =
     concat (map (\<lambda>e. case e of Callback sl err \<Rightarrow>
                          if \<not> err \<and> slot_index sl < length ps then [ps ! slot_index sl] else []
                        | TimeoutExpired \<Rightarrow> []) evs)"

definition broker_apply :: "publish_call list \<Rightarrow> retained \<Rightarrow> retained" where
  "broker_apply ps m = fold retain ps m"

definition deliver :: "publish_call list \<Rightarrow> config_store \<Rightarrow> config_store" where
  "deliver ps cfg = fold (\<lambda>p. on_message (p_topic p) (p_payload p)) ps cfg"

subsection \<open>GET /api/get-config\<close>

record config_response =
  r_start :: jsval
  r_finish :: jsval
  r_lap :: jsval
  r_totalLaps :: jsnumber
  r_idealTime :: jsnumber

text \<open>
  One of the three blocks of lines 112-128: \<open>null\<close> when nothing (or the empty text)
  is stored, else the parsed payload with each point swapped back to \<open>[lat, lon]\<close>.
  \<open>None\<close> when \<open>JSON.parse\<close> or a property read throws, which the
  \<open>catch\<close> of line 130 handles.
\<close>

definition read_line :: "builtins \<Rightarrow> string option \<Rightarrow> jsval option" where
  "read_line rt stored =
     (case stored of
        None \<Rightarrow> Some JNull
      | Some text \<Rightarrow>
          if text = [] then Some JNull
          else do {
            data \<leftarrow> JSON_parse rt text;
            p1 \<leftarrow> get_prop data ''p1'';
            a \<leftarrow> get_index p1 1;
            b \<leftarrow> get_index p1 0;
            p2 \<leftarrow> get_prop data ''p2'';
            c \<leftarrow> get_index p2 1;
            d \<leftarrow> get_index p2 0;
            Some (JArr [JArr [a, b], JArr [c, d]])
          })"

definition parse_error :: response where
  "parse_error = \<lparr>status = 500,
     message = ''Error parsing stored line configuration from MQTT.'', details = None\<rparr>"

text \<open>Lines 137-146 and 149-158.\<close>

definition read_total_laps :: "builtins \<Rightarrow> string option \<Rightarrow> jsnumber" where
  "read_total_laps rt stored =
     (case stored of
        None \<Rightarrow> Fin 0
      | Some text \<Rightarrow>
          if text = [] then Fin 0
          else (let n = parseInt10 rt text in if isNaN n then Fin 0 else n))"

definition read_ideal_time :: "builtins \<Rightarrow> string option \<Rightarrow> jsnumber" where
  "read_ideal_time rt stored =
     (case stored of
        None \<Rightarrow> Fin 60
      | Some text \<Rightarrow>
          if text = [] then Fin 60
          else (let n = parseFloat rt text in if isNaN n then Fin 60 else n))"

definition get_config :: "builtins \<Rightarrow> config_store \<Rightarrow> response + config_response" where
  "get_config rt currentConfig =
     (case read_line rt (currentConfig MQTT_TOPIC_CONFIG_START) of
        None \<Rightarrow> Inl parse_error
      | Some s \<Rightarrow>
     (case read_line rt (currentConfig MQTT_TOPIC_CONFIG_FINISH) of
        None \<Rightarrow> Inl parse_error
      | Some f \<Rightarrow>
     (case read_line rt (currentConfig MQTT_TOPIC_CONFIG_LAP) of
        None \<Rightarrow> Inl parse_error
      | Some l \<Rightarrow>
          Inr \<lparr>r_start = s, r_finish = f, r_lap = l,
               r_totalLaps = read_total_laps rt (currentConfig MQTT_TOPIC_CONFIG_TOTAL_LAPS),
               r_idealTime = read_ideal_time rt (currentConfig MQTT_TOPIC_IDEAL_TIME)\<rparr>)))"

text \<open>
  What the client reads in the body of a response: \<open>res.send\<close> writes the object as
  JSON text, in which an infinity or NaN is \<open>null\<close>, \<open>undefined\<close> is \<open>null\<close> in an
  array, and a property whose value is \<open>undefined\<close> is left out.
\<close>

fun wire :: "jsval \<Rightarrow> jsval"
  and wire_list :: "jsval list \<Rightarrow> jsval list"
  and wire_props :: "(string \<times> jsval) list \<Rightarrow> (string \<times> jsval) list" where
  "wire JUndefined = JNull"
| "wire JNull = JNull"
| "wire (JBool b) = JBool b"
| "wire (JNum NaN) = JNull"
| "wire (JNum NegInf) = JNull"
| "wire (JNum PosInf) = JNull"
| "wire (JNum (Fin q)) = JNum (Fin q)"
| "wire (JStr s) = JStr s"
| "wire (JArr xs) = JArr (wire_list xs)"
| "wire (JObj kvs) = JObj (wire_props kvs)"
| "wire_list [] = []"
| "wire_list (x # xs) = wire x # wire_list xs"
| "wire_props [] = []"
| "wire_props ((k, v) # kvs) =
     (if v = JUndefined then wire_props kvs else (k, wire v) # wire_props kvs)"

text \<open>
  The answer of \<open>GET /api/get-config\<close> as the client receives it: the status and the
  JSON value of the body (lines 133 and 166).
\<close>

definition get_config_reply :: "builtins \<Rightarrow> config_store \<Rightarrow> nat \<times> jsval" where
  "get_config_reply rt currentConfig =
     (case get_config rt currentConfig of
        Inl e \<Rightarrow> (status e, wire (response_body e))
      | Inr r \<Rightarrow>
          (200, wire (JObj [(''start'', r_start r), (''finish'', r_finish r),
                            (''lap'', r_lap r), (''totalLaps'', JNum (r_totalLaps r)),
                            (''idealTime'', JNum (r_idealTime r))])))"

section \<open>web-display/node-js/server.js\<close>

definition MQTT_TOPIC_GPS :: string where
  "MQTT_TOPIC_GPS = ''gps/status''"

definition MQTT_TOPIC_SPEED :: string where
  "MQTT_TOPIC_SPEED = ''car/speed''"

definition requiredKeys :: "string list" where
  "requiredKeys = [''current_lap'', ''total_laps'', ''last_lap_time_seconds'', ''race_finished'',
     ''current_lap_elapsed_seconds'']"

text \<open>
  The global state of the relay, with the list of the events given to \<open>io.emit\<close>.
\<close>

record relay =
  raceData :: "(string \<times> jsval) list"
  speedData :: "(string \<times> jsval) list"
  emitted :: "(string \<times> (string \<times> jsval) list) list"

definition initial_relay :: relay where
  "initial_relay = \<lparr>
     raceData = [(''current_lap'', JNum (Fin 0)), (''total_laps'', JNum (Fin 0)),
       (''last_lap_time_seconds'', JNull), (''race_finished'', JBool False),
       (''current_lap_elapsed_seconds'', JNull)],
     speedData = [(''speed_kmh'', JNum (Fin 0))],
     emitted = []\<rparr>"

text \<open>
  \<open>key in v\<close>: a TypeError (\<open>None\<close>) unless \<open>v\<close> is an object or an array. The
  keys this program tests are not properties of a builtin prototype, so an object has a
  key when it is an own property, and an array has its indices and \<open>length\<close>.
\<close>

fun js_in :: "string \<Rightarrow> jsval \<Rightarrow> bool option" where
  "js_in key (JObj kvs) = Some (key \<in> set (map fst kvs))"
| "js_in key (JArr xs) = Some (key = ''length'' \<or> key \<in> set (map dec [0..<length xs]))"
| "js_in key _ = None"

text \<open>\<open>keys.every(key => key in v)\<close>: stops at the first key that is missing.\<close>

fun every_in :: "string list \<Rightarrow> jsval \<Rightarrow> bool option" where
  "every_in [] v = Some True"
| "every_in (key # keys) v =
     (case js_in key v of
        None \<Rightarrow> None
      | Some False \<Rightarrow> Some False
      | Some True \<Rightarrow> every_in keys v)"

text \<open>
  An integer-like key is the decimal text of a number below \<open>2^32 - 1\<close>, with no
  leading zero.
\<close>

definition digit_value :: "char \<Rightarrow> nat option" where
  "digit_value c = map_of (zip ''0123456789'' [0, 1, 2, 3, 4, 5, 6, 7, 8, 9]) c"

fun digits_value :: "string \<Rightarrow> nat \<Rightarrow> nat option" where
  "digits_value [] acc = Some acc"
| "digits_value (c # cs) acc =
     (case digit_value c of None \<Rightarrow> None | Some d \<Rightarrow> digits_value cs (10 * acc + d))"

definition array_index :: "string \<Rightarrow> nat option" where
  "array_index key =
     (if key = [] then None
      else
        (case digits_value key 0 of
           None \<Rightarrow> None
         | Some n \<Rightarrow> if dec n = key \<and> n < 4294967295 then Some n else None))"

text \<open>
  Object spread \<open>{ ...base, ...v }\<close>: the own enumerable properties of \<open>v\<close> are
  assigned in turn. An assignment keeps the place of a key that exists. A new key is
  enumerated after the keys there are when it is not integer-like, and else among the
  integer-like keys, which come first in ascending order.
\<close>

fun insert_index :: "nat \<Rightarrow> string \<times> jsval \<Rightarrow> (string \<times> jsval) list \<Rightarrow> (string \<times> jsval) list" where
  "insert_index i kv [] = [kv]"
| "insert_index i kv ((k', v') # kvs) =
     (case array_index k' of
        None \<Rightarrow> kv # (k', v') # kvs
      | Some j \<Rightarrow> if j < i then (k', v') # insert_index i kv kvs else kv # (k', v') # kvs)"

fun own_props :: "jsval \<Rightarrow> (string \<times> jsval) list" where
  "own_props (JObj kvs) = kvs"
| "own_props (JArr xs) = zip (map dec [0..<length xs]) xs"
| "own_props (JStr s) = zip (map dec [0..<length s]) (map (\<lambda>c. JStr [c]) s)"
| "own_props _ = []"

fun replace_prop :: "string \<Rightarrow> jsval \<Rightarrow> (string \<times> jsval) list \<Rightarrow> (string \<times> jsval) list" where
  "replace_prop k v [] = []"
| "replace_prop k v ((k', v') # kvs) =
     (if k' = k then (k, v) # kvs else (k', v') # replace_prop k v kvs)"

definition set_prop :: "string \<Rightarrow> jsval \<Rightarrow> (string \<times> jsval) list \<Rightarrow> (string \<times> jsval) list" where
  "set_prop k v kvs =
     (if k \<in> set (map fst kvs) then replace_prop k v kvs
      else
        (case array_index k of
           None \<Rightarrow> kvs @ [(k, v)]
         | Some i \<Rightarrow> insert_index i (k, v) kvs))"

definition spread :: "(string \<times> jsval) list \<Rightarrow> (string \<times> jsval) list \<Rightarrow> (string \<times> jsval) list" where
  "spread base kvs = fold (\<lambda>(k, v). set_prop k v) kvs base"

text \<open>
  The \<open>message\<close> handler (lines 100-125). Whatever throws inside the \<open>try\<close> is caught
  and logged, and the state stays as it is.
\<close>

definition display_on_message :: "(string \<Rightarrow> jsval option) \<Rightarrow> string \<Rightarrow> string \<Rightarrow> relay \<Rightarrow> relay" where
  "display_on_message parse topic msg st =
     (case parse msg of
        None \<Rightarrow> st
      | Some payload \<Rightarrow>
          if topic = MQTT_TOPIC_GPS then
            (case every_in requiredKeys payload of
               None \<Rightarrow> st
             | Some True \<Rightarrow>
                 (let rd = spread (raceData st) (own_props payload)
                  in st\<lparr>raceData := rd, emitted := emitted st @ [(''race_update'', rd)]\<rparr>)
             | Some False \<Rightarrow> st)
          else if topic = MQTT_TOPIC_SPEED then
            (case js_in ''speed_kmh'' payload of
               None \<Rightarrow> st
             | Some True \<Rightarrow>
                 (case get_prop payload ''speed_kmh'' of
                    None \<Rightarrow> st
                  | Some v \<Rightarrow>
                      (let sd = set_prop ''speed_kmh'' v (speedData st)
                       in st\<lparr>speedData := sd, emitted := emitted st @ [(''speed_update'', sd)]\<rparr>))
             | Some False \<Rightarrow> st)
          else st)"

section \<open>The dashboard script: formatTimeJS\<close>

text \<open>
  Arithmetic of the script on numbers, which are doubles: division by and remainder of
  a positive finite constant, \<open>Math.floor\<close>, \<open>Math.round\<close> (a half rounds up) and
  \<open>+ 1\<close>. The quotient and the sum are rounded to a double, by the parameter \<open>fl\<close> of
  the model; the remainder of two doubles, the floor and the rounding of a double are
  exact in the runtime.
\<close>

fun num_div :: "(rat \<Rightarrow> rat) \<Rightarrow> jsnumber \<Rightarrow> rat \<Rightarrow> jsnumber" where
  "num_div fl (Fin q) d = Fin (fl (q / d))"
| "num_div fl n d = n"

fun num_mod :: "jsnumber \<Rightarrow> rat \<Rightarrow> jsnumber" where
  "num_mod (Fin q) d =
     Fin (q - d * of_int (if 0 \<le> q then \<lfloor>q / d\<rfloor> else \<lceil>q / d\<rceil>))"
| "num_mod n d = NaN"

fun Math_floor :: "jsnumber \<Rightarrow> jsnumber" where
  "Math_floor (Fin q) = Fin (of_int \<lfloor>q\<rfloor>)"
| "Math_floor n = n"

fun Math_round :: "jsnumber \<Rightarrow> jsnumber" where
  "Math_round (Fin q) = Fin (of_int \<lfloor>q + 1 / 2\<rfloor>)"
| "Math_round n = n"

fun num_succ :: "(rat \<Rightarrow> rat) \<Rightarrow> jsnumber \<Rightarrow> jsnumber" where
  "num_succ fl (Fin q) = Fin (fl (q + 1))"
| "num_succ fl n = n"

text \<open>
  \<open>String(n)\<close>: the decimal digits of a natural number below \<open>2^53\<close>, all of which
  are doubles. The text of any other finite number (a fraction, a negative number, the
  shortest digits of a larger double, the exponent notation from \<open>10^21\<close> on) is left
  to the parameter \<open>other\<close>.
\<close>

fun number_text :: "(rat \<Rightarrow> string) \<Rightarrow> jsnumber \<Rightarrow> string" where
  "number_text other NaN = ''NaN''"
| "number_text other PosInf = ''Infinity''"
| "number_text other NegInf = ''-Infinity''"
| "number_text other (Fin q) =
     (if 0 \<le> q \<and> of_int \<lfloor>q\<rfloor> = q \<and> q < 2 ^ 53 then dec (nat \<lfloor>q\<rfloor>) else other q)"

text \<open>\<open>s.padStart(2, '0')\<close>.\<close>

definition padStart2 :: "string \<Rightarrow> string" where
  "padStart2 s = replicate (2 - length s) CHR ''0'' @ s"

text \<open>
  \<open>formatTimeJS\<close> (lines 51-67 of the script). \<open>pf\<close> is \<open>parseFloat\<close> on a value of
  any type (\<open>None\<close> when the conversion to a string throws, which the \<open>catch\<close> turns
  into \<open>"00:00"\<close>), \<open>fl\<close> the rounding to a double.
\<close>

definition formatTimeJS ::
  "(rat \<Rightarrow> rat) \<Rightarrow> (jsval \<Rightarrow> jsnumber option) \<Rightarrow> (rat \<Rightarrow> string) \<Rightarrow> jsval \<Rightarrow> string" where
  "formatTimeJS fl pf other seconds =
     (if seconds = JNull \<or> seconds = JUndefined then ''00:00''
      else
        (case pf seconds of
           None \<Rightarrow> ''00:00''
         | Some secs \<Rightarrow>
             if isNaN secs \<or> lt_zero secs then ''00:00''
             else
               (let minutes = Math_floor (num_div fl secs 60);
                    remainingSeconds = Math_round (num_mod secs 60);
                    carry = (remainingSeconds = Fin 60);
                    minutes = (if carry then num_succ fl minutes else minutes);
                    remainingSeconds = (if carry then Fin 0 else remainingSeconds)
                in padStart2 (number_text other minutes) @ '':''
                   @ padStart2 (number_text other remainingSeconds))))"

section \<open>The statements of the specification\<close>

subsection \<open>Well-formed requests\<close>

text \<open>
  A point is an array of exactly two numbers, a line an array of exactly two points;
  \<open>totalLaps\<close> is a non-negative integer and \<open>idealTime\<close> a non-negative number.
\<close>

fun is_point :: "jsval \<Rightarrow> bool" where
  "is_point (JArr [JNum a, JNum b]) = True"
| "is_point _ = False"

fun is_line :: "jsval \<Rightarrow> bool" where
  "is_line (JArr [p, q]) = (is_point p \<and> is_point q)"
| "is_line _ = False"






subsection \<open>Lines with finite coordinates, and JSON text\<close>

fun finite_point :: "jsval \<Rightarrow> bool" where
  "finite_point (JArr [JNum (Fin a), JNum (Fin b)]) = True"
| "finite_point _ = False"

fun finite_line :: "jsval \<Rightarrow> bool" where
  "finite_line (JArr [p, q]) = (finite_point p \<and> finite_point q)"
| "finite_line _ = False"

text \<open>The object of a line on the wire: each point as \<open>[lon, lat]\<close>.\<close>

fun swapped_object :: "jsval \<Rightarrow> jsval" where
  "swapped_object (JArr [JArr [lat1, lon1], JArr [lat2, lon2]]) =
     JObj [(''p1'', JArr [lon1, lat1]), (''p2'', JArr [lon2, lat2])]"
| "swapped_object v = JNull"

text \<open>
  What \<open>JSON.parse(JSON.stringify(v))\<close> is for the object \<open>v\<close> of a line: JSON has no
  text for an infinity or NaN, and \<open>JSON.stringify\<close> writes \<open>null\<close> for them.
\<close>

fun json_number :: "jsval \<Rightarrow> jsval" where
  "json_number (JNum (Fin q)) = JNum (Fin q)"
| "json_number _ = JNull"

fun json_of_line_object :: "jsval \<Rightarrow> jsval" where
  "json_of_line_object (JObj [(k1, JArr [a, b]), (k2, JArr [c, d])]) =
     JObj [(k1, JArr [json_number a, json_number b]), (k2, JArr [json_number c, json_number d])]"
| "json_of_line_object v = v"

text \<open>
  The runtime law that the round trip of a line rests on: the text of the line's object
  is not empty and parses back to that object, up to the infinities and NaN.
\<close>

definition json_codec :: "builtins \<Rightarrow> jsval \<Rightarrow> bool" where
  "json_codec rt v =
     (JSON_stringify rt v \<noteq> []
      \<and> JSON_parse rt (JSON_stringify rt v) = Some (json_of_line_object v))"

subsection \<open>Numeric defaults\<close>

text \<open>
  The stored value parsed as a number, or the default when the topic has no value or
  the value does not parse.
\<close>

definition parsed_or_default :: "(string \<Rightarrow> jsnumber) \<Rightarrow> rat \<Rightarrow> string option \<Rightarrow> jsnumber" where
  "parsed_or_default parse_number dflt stored =
     (case stored of
        None \<Rightarrow> Fin dflt
      | Some text \<Rightarrow> if parse_number text = NaN then Fin dflt else parse_number text)"

text \<open>
  A stored line payload is readable when there is none or it is the empty text (the
  code then answers \<open>null\<close> for the line), or when it is JSON for a value that is not
  \<open>null\<close> and whose \<open>p1\<close> and \<open>p2\<close> are neither missing nor \<open>null\<close>.
\<close>

fun indexable :: "jsval \<Rightarrow> bool" where
  "indexable JUndefined = False"
| "indexable JNull = False"
| "indexable v = True"

fun property :: "jsval \<Rightarrow> string \<Rightarrow> jsval" where
  "property (JObj kvs) name = own_prop kvs name"
| "property v name = JUndefined"

definition line_stored_ok :: "builtins \<Rightarrow> string option \<Rightarrow> bool" where
  "line_stored_ok rt stored =
     (case stored of
        None \<Rightarrow> True
      | Some text \<Rightarrow>
          text = []
          \<or> (case JSON_parse rt text of
                None \<Rightarrow> False
              | Some data \<Rightarrow>
                  indexable data \<and> indexable (property data ''p1'')
                  \<and> indexable (property data ''p2'')))"

definition lines_readable :: "builtins \<Rightarrow> config_store \<Rightarrow> bool" where
  "lines_readable rt cfg =
     (line_stored_ok rt (cfg MQTT_TOPIC_CONFIG_START)
      \<and> line_stored_ok rt (cfg MQTT_TOPIC_CONFIG_FINISH)
      \<and> line_stored_ok rt (cfg MQTT_TOPIC_CONFIG_LAP))"

subsection \<open>The minutes of a time\<close>

text \<open>
  The double arithmetic of the minutes agrees with the exact one at \<open>q\<close> seconds: the
  rounded quotient has the integer part of the quotient, the minutes and one more are
  below \<open>2^53\<close>, and adding one to the minutes is not rounded.
\<close>

definition minutes_exact :: "(rat \<Rightarrow> rat) \<Rightarrow> rat \<Rightarrow> bool" where
  "minutes_exact fl q =
     (\<lfloor>fl (q / 60)\<rfloor> = \<lfloor>q / 60\<rfloor> \<and> \<lfloor>q / 60\<rfloor> + 1 < 2 ^ 53
      \<and> fl (of_int \<lfloor>q / 60\<rfloor> + 1) = of_int \<lfloor>q / 60\<rfloor> + 1)"

subsection \<open>Keys of a status payload\<close>

text \<open>A payload has a key when it is a JSON object with a property of that name.\<close>

fun has_own_key :: "jsval \<Rightarrow> string \<Rightarrow> bool" where
  "has_own_key (JObj kvs) k = (k \<in> fst ` set kvs)"
| "has_own_key v k = False"

subsection \<open>The report of a completed update\<close>

definition completion :: "event list \<Rightarrow> response" where
  "completion cbs =
     (if failures cbs = [] then publish_success else publish_failure (failures cbs))"

text \<open>One callback for each of the five publishes, in some order.\<close>

definition all_called_back :: "event list \<Rightarrow> bool" where
  "all_called_back cbs =
     (list_all is_callback cbs \<and> distinct (slots cbs) \<and> length cbs = totalTasks)"

section \<open>Sample data\<close>

text \<open>
  The gates of the scenario of the specification, and the values that the builtins of
  a JavaScript runtime take on the texts and values that occur below.
\<close>

definition sample_start :: jsval where
  "sample_start = JArr [JArr [JNum (Fin 49.6), JNum (Fin 6.1)],
                        JArr [JNum (Fin 49.601), JNum (Fin 6.1)]]"

definition sample_lap :: jsval where
  "sample_lap = JArr [JArr [JNum (Fin 49.6), JNum (Fin 6.2)],
                      JArr [JNum (Fin 49.601), JNum (Fin 6.2)]]"

definition sample_body :: body where
  "sample_body = [(''start'', sample_start), (''finish'', sample_start), (''lap'', sample_lap),
     (''totalLaps'', JNum (Fin 3)), (''idealTime'', JNum (Fin 58.7))]"

definition start_object :: jsval where
  "start_object = JObj [(''p1'', JArr [JNum (Fin 6.1), JNum (Fin 49.6)]),
                        (''p2'', JArr [JNum (Fin 6.1), JNum (Fin 49.601)])]"

definition lap_object :: jsval where
  "lap_object = JObj [(''p1'', JArr [JNum (Fin 6.2), JNum (Fin 49.6)]),
                      (''p2'', JArr [JNum (Fin 6.2), JNum (Fin 49.601)])]"

definition start_text :: string where
  \<open>start_text = ''{"p1":[6.1,49.6],"p2":[6.1,49.601]}''\<close>

definition lap_text :: string where
  \<open>lap_text = ''{"p1":[6.2,49.6],"p2":[6.2,49.601]}''\<close>

text \<open>
  A start line whose first latitude is \<open>Infinity\<close>, which is what \<open>JSON.parse\<close> gives
  for the number \<open>1e999\<close> of a request body, with its object and the text of it.
\<close>

definition overflow_start :: jsval where
  "overflow_start = JArr [JArr [JNum PosInf, JNum (Fin 6.1)],
                          JArr [JNum (Fin 49.601), JNum (Fin 6.1)]]"

definition overflow_body :: body where
  "overflow_body = [(''start'', overflow_start), (''finish'', sample_start), (''lap'', sample_lap),
     (''totalLaps'', JNum (Fin 3)), (''idealTime'', JNum (Fin 58.7))]"

definition overflow_object :: jsval where
  "overflow_object = JObj [(''p1'', JArr [JNum (Fin 6.1), JNum PosInf]),
                           (''p2'', JArr [JNum (Fin 6.1), JNum (Fin 49.601)])]"

definition overflow_text :: string where
  \<open>overflow_text = ''{"p1":[6.1,null],"p2":[6.1,49.601]}''\<close>

definition overflow_parsed :: jsval where
  "overflow_parsed = JObj [(''p1'', JArr [JNum (Fin 6.1), JNull]),
                           (''p2'', JArr [JNum (Fin 6.1), JNum (Fin 49.601)])]"

text \<open>A start line whose two points are the same.\<close>

definition degenerate_start :: jsval where
  "degenerate_start = JArr [JArr [JNum (Fin 49.6), JNum (Fin 6.1)],
                            JArr [JNum (Fin 49.6), JNum (Fin 6.1)]]"

definition degenerate_body :: body where
  "degenerate_body = [(''start'', degenerate_start), (''finish'', sample_start),
     (''lap'', sample_lap), (''totalLaps'', JNum (Fin 3)), (''idealTime'', JNum (Fin 58.7))]"

definition degenerate_object :: jsval where
  "degenerate_object = JObj [(''p1'', JArr [JNum (Fin 6.1), JNum (Fin 49.6)]),
                             (''p2'', JArr [JNum (Fin 6.1), JNum (Fin 49.6)])]"

definition degenerate_text :: string where
  \<open>degenerate_text = ''{"p1":[6.1,49.6],"p2":[6.1,49.6]}''\<close>


definition sample_rt :: builtins where
  "sample_rt = \<lparr>
     JSON_parse = map_of [(start_text, start_object), (lap_text, lap_object),
                          (overflow_text, overflow_parsed), (degenerate_text, degenerate_object)],
     JSON_stringify = (\<lambda>v. if v = start_object then start_text
                            else if v = lap_object then lap_text
                            else if v = overflow_object then overflow_text
                            else if v = degenerate_object then degenerate_text
                            else ''null''),
     parseInt10 = (\<lambda>t. if t = ''3'' then Fin 3 else NaN),
     parseFloat = (\<lambda>t. if t = ''58.7'' then Fin 58.7
                        else if t = ''Infinity'' then PosInf else NaN),
     String_of = (\<lambda>v. if v = JNum (Fin 3) then ''3''
                       else if v = JNum (Fin 58.7) then ''58.7'' else ''undefined'')\<rparr>"

definition sample_publishes :: "publish_call list" where
  "sample_publishes =
     [publish MQTT_TOPIC_CONFIG_START start_text, publish MQTT_TOPIC_CONFIG_FINISH start_text,
      publish MQTT_TOPIC_CONFIG_LAP lap_text, publish MQTT_TOPIC_CONFIG_TOTAL_LAPS ''3'',
      publish MQTT_TOPIC_IDEAL_TIME ''58.7'']"

text \<open>Two orders in which the five callbacks may run.\<close>

definition lap_fails :: "event list" where
  "lap_fails = [Callback Start False, Callback TotalLaps False, Callback Lap True,
     Callback Finish False, Callback IdealTime False]"

definition all_acked :: "event list" where
  "all_acked = [Callback IdealTime False, Callback Start False, Callback Finish False,
     Callback Lap False, Callback TotalLaps False]"

text \<open>
  Two requests whose callbacks interleave, each acknowledged five times before its timer.
\<close>

definition interleaved :: "(bool \<times> event) list" where
  "interleaved = [(False, Callback Start False), (True, Callback Lap False),
     (False, Callback Finish False), (False, Callback Lap False), (True, Callback Start False),
     (True, Callback IdealTime False), (False, Callback TotalLaps False),
     (True, Callback TotalLaps False), (True, Callback Finish False),
     (False, Callback IdealTime False), (False, TimeoutExpired), (True, TimeoutExpired)]"

text \<open>
  Stored configurations: one whose start line is not JSON, one whose lap count is not
  a number; and the publishes of the request with the infinite latitude.
\<close>

definition unreadable_config :: config_store where
  "unreadable_config = initialConfig(MQTT_TOPIC_CONFIG_START := Some ''not json'',
     MQTT_TOPIC_CONFIG_TOTAL_LAPS := Some ''3'')"

definition defaulted_config :: config_store where
  "defaulted_config = initialConfig(MQTT_TOPIC_CONFIG_START := Some start_text,
     MQTT_TOPIC_CONFIG_TOTAL_LAPS := Some ''abc'')"

definition overflow_publishes :: "publish_call list" where
  "overflow_publishes =
     [publish MQTT_TOPIC_CONFIG_START overflow_text, publish MQTT_TOPIC_CONFIG_FINISH start_text,
      publish MQTT_TOPIC_CONFIG_LAP lap_text, publish MQTT_TOPIC_CONFIG_TOTAL_LAPS ''3'',
      publish MQTT_TOPIC_IDEAL_TIME ''58.7'']"

text \<open>What \<open>JSON.parse\<close> gives for four status messages; it throws on any other text here.\<close>

definition status_parse :: "string \<Rightarrow> jsval option" where
  \<open>status_parse = map_of
     [(''{"current_lap":2,"total_laps":5}'',
         JObj [(''current_lap'', JNum (Fin 2)), (''total_laps'', JNum (Fin 5))]),
      (''[1,2]'', JArr [JNum (Fin 1), JNum (Fin 2)]),
      (''7'', JNum (Fin 7)),
      (''{"current_lap":2,"total_laps":5,"last_lap_time_seconds":61.5,"race_finished":false,"current_lap_elapsed_seconds":3}'',
         JObj [(''current_lap'', JNum (Fin 2)), (''total_laps'', JNum (Fin 5)),
               (''last_lap_time_seconds'', JNum (Fin 61.5)), (''race_finished'', JBool False),
               (''current_lap_elapsed_seconds'', JNum (Fin 3))])]\<close>

text \<open>
  \<open>parseFloat\<close> on the values used below: a number gives itself, the text \<open>12.5\<close>
  its number, and a text with no number NaN.
\<close>

definition sample_parseFloat :: "jsval \<Rightarrow> jsnumber option" where
  "sample_parseFloat v =
     (case v of JNum n \<Rightarrow> Some n | JStr s \<Rightarrow> (if s = ''12.5'' then Some (Fin 12.5) else Some NaN)
      | _ \<Rightarrow> Some NaN)"

text \<open>
  A stored ideal time of \<open>Infinity\<close>, the text that \<open>String\<close> gives for the
  \<open>idealTime\<close> \<open>1e999\<close> of a request.
\<close>

definition infinite_ideal_config :: config_store where
  "infinite_ideal_config = initialConfig(MQTT_TOPIC_IDEAL_TIME := Some ''Infinity'')"

text \<open>
  The text that \<open>String\<close> gives for the number \<open>10^21\<close>, from which on it writes
  the exponent notation.
\<close>

definition exponent_text :: "rat \<Rightarrow> string" where
  "exponent_text q = (if q = 10 ^ 21 then ''1e+21'' else ''?'')"

lemmas sample_defs = sample_start_def sample_lap_def sample_body_def start_object_def
  lap_object_def start_text_def lap_text_def overflow_start_def overflow_body_def
  overflow_object_def overflow_text_def overflow_parsed_def sample_rt_def sample_publishes_def
  degenerate_start_def degenerate_body_def degenerate_object_def degenerate_text_def

section \<open>Validation of a configuration update\<close>

lemma is_point_iff: "is_point p \<longleftrightarrow> (\<exists>a b. p = JArr [JNum a, JNum b])"
  by (induction p rule: is_point.induct) auto

lemma is_line_iff: "is_line l \<longleftrightarrow> (\<exists>p q. l = JArr [p, q] \<and> is_point p \<and> is_point q)"
  by (induction l rule: is_line.induct) auto

lemma isValidPoint_iff: "isValidPoint p \<longleftrightarrow> is_point p"
proof (cases p)
  case (JArr xs)
  show ?thesis
  proof (cases xs)
    case Nil
    with JArr show ?thesis by (simp add: isValidPoint_def)
  next
    case (Cons x ys)
    show ?thesis
    proof (cases ys)
      case Nil
      with JArr Cons show ?thesis by (simp add: isValidPoint_def)
    next
      case (Cons y zs)
      with JArr \<open>xs = x # ys\<close> show ?thesis
        by (cases zs; cases x; cases y) (simp_all add: isValidPoint_def)
    qed
  qed
qed (simp_all add: isValidPoint_def)

lemma line_checks_iff:
  "truthy l \<and> isArray l \<and> arr_length l = 2 \<and> isValidPoint (elem l 0) \<and> isValidPoint (elem l 1)
   \<longleftrightarrow> is_line l"
proof (cases l)
  case (JArr xs)
  show ?thesis
  proof (cases xs)
    case Nil
    with JArr show ?thesis by simp
  next
    case (Cons x ys)
    show ?thesis
    proof (cases ys)
      case Nil
      with JArr Cons show ?thesis by simp
    next
      case (Cons y zs)
      with JArr \<open>xs = x # ys\<close> show ?thesis
        by (cases zs) (simp_all add: isValidPoint_iff elem_def)
    qed
  qed
qed simp_all





lemma line_object_Some: "is_line l \<Longrightarrow> \<exists>a b c d. l = JArr [JArr [JNum a, JNum b], JArr [JNum c, JNum d]] \<and> line_object l = Some (JObj [(''p1'', JArr [JNum b, JNum a]), (''p2'', JArr [JNum d, JNum c])])"
  by (auto simp: is_line_iff is_point_iff line_object_def)


lemma validate_lines: "validate b = None \<Longrightarrow>
   is_line (own_prop b ''start'') \<and> is_line (own_prop b ''finish'') \<and> is_line (own_prop b ''lap'')"
  unfolding validate_def Let_def line_checks_iff [symmetric]
  by (auto split: if_splits)

lemma set_lines_valid:
  assumes "validate b = None"
  shows "set_lines rt False b = Respond not_connected"
    and "\<exists>s f l. line_object (own_prop b ''start'') = Some s
           \<and> line_object (own_prop b ''finish'') = Some f
           \<and> line_object (own_prop b ''lap'') = Some l
           \<and> set_lines rt True b = Publishing
                   [publish MQTT_TOPIC_CONFIG_START (JSON_stringify rt s),
                    publish MQTT_TOPIC_CONFIG_FINISH (JSON_stringify rt f),
                    publish MQTT_TOPIC_CONFIG_LAP (JSON_stringify rt l),
                    publish MQTT_TOPIC_CONFIG_TOTAL_LAPS (String_of rt (own_prop b ''totalLaps'')),
                    publish MQTT_TOPIC_IDEAL_TIME (String_of rt (own_prop b ''idealTime''))]"
proof -
  show "set_lines rt False b = Respond not_connected"
    using assms by (simp add: set_lines_def)
  from validate_lines [OF assms] line_object_Some
  obtain s f l where "line_object (own_prop b ''start'') = Some s"
    "line_object (own_prop b ''finish'') = Some f" "line_object (own_prop b ''lap'') = Some l"
    by metis
  then show "\<exists>s f l. line_object (own_prop b ''start'') = Some s
           \<and> line_object (own_prop b ''finish'') = Some f
           \<and> line_object (own_prop b ''lap'') = Some l
           \<and> set_lines rt True b = Publishing
                   [publish MQTT_TOPIC_CONFIG_START (JSON_stringify rt s),
                    publish MQTT_TOPIC_CONFIG_FINISH (JSON_stringify rt f),
                    publish MQTT_TOPIC_CONFIG_LAP (JSON_stringify rt l),
                    publish MQTT_TOPIC_CONFIG_TOTAL_LAPS (String_of rt (own_prop b ''totalLaps'')),
                    publish MQTT_TOPIC_IDEAL_TIME (String_of rt (own_prop b ''idealTime''))]"
    using assms by (simp add: set_lines_def)
qed

lemma reads_after_validation_never_throw: "set_lines rt c b \<noteq> Throws"
proof (cases "validate b")
  case None
  from set_lines_valid [OF None, of rt] show ?thesis by (cases c) auto
next
  case (Some r)
  then show ?thesis by (simp add: set_lines_def)
qed

lemma sample_body_valid: "validate sample_body = None"
  by (simp add: validate_def sample_defs own_prop_def isValidPoint_def elem_def)

lemma sample_set_lines: "set_lines sample_rt True sample_body = Publishing sample_publishes"
  by (simp add: set_lines_def sample_body_valid)
     (simp add: sample_defs own_prop_def line_object_def)

lemma destructure_None_iff: "destructure v = None \<longleftrightarrow> v = JUndefined \<or> v = JNull"
  by (cases v) simp_all


lemma integer_like_key_first:
  "set_prop ''2'' v [(''10'', a), (''x'', b)] = [(''2'', v), (''10'', a), (''x'', b)]"
  by (simp add: set_prop_def array_index_def digit_value_def dec.simps digit_def)




section \<open>Completion tracking of a configuration update\<close>

lemma run_Nil: "run [] st = st" by (simp add: run_def)
lemma run_Cons: "run (e # evs) st = run evs (step e st)" by (simp add: run_def)
lemma run_append: "run (xs @ ys) st = run ys (run xs st)" by (simp add: run_def)

lemma step_after_response:
  "responseSent st \<Longrightarrow> responseSent (step e st) \<and> sent (step e st) = sent st"
  by (cases e) (simp_all add: publish_callback_def checkCompletion_def timeout_callback_def)

lemma run_after_response:
  "responseSent st \<Longrightarrow> responseSent (run evs st) \<and> sent (run evs st) = sent st"
proof (induction evs arbitrary: st)
  case Nil
  then show ?case by (simp add: run_Nil)
next
  case (Cons e evs)
  from step_after_response [OF Cons.prems, of e]
  have "responseSent (step e st)" and "sent (step e st) = sent st" by simp_all
  with Cons.IH [of "step e st"] show ?case by (simp add: run_Cons)
qed

lemma failures_snoc:
  "failures (xs @ [Callback sl err]) = failures xs @ (if err then [failure_text sl] else [])"
  by (simp add: failures_def)

lemma callbacks_counted:
  "list_all is_callback xs \<Longrightarrow> length (failures xs) + length (filter acked xs) = length xs"
proof (induction xs)
  case Nil
  then show ?case by (simp add: failures_def)
next
  case (Cons e xs)
  then show ?case by (cases e) (simp_all add: failures_def)
qed

lemma run_waiting:
  "list_all is_callback cbs \<Longrightarrow> length cbs < totalTasks \<Longrightarrow>
   run cbs start_tracking =
     \<lparr>errors = failures cbs, successes = length (filter acked cbs),
      responseSent = False, sent = []\<rparr>"
proof (induction cbs rule: rev_induct)
  case Nil
  then show ?case by (simp add: run_Nil start_tracking_def failures_def)
next
  case (snoc e cbs)
  then have cb: "list_all is_callback cbs" and len: "Suc (length cbs) < totalTasks" by simp_all
  from snoc.IH cb len have IH: "run cbs start_tracking =
     \<lparr>errors = failures cbs, successes = length (filter acked cbs),
      responseSent = False, sent = []\<rparr>" by simp
  from snoc.prems obtain sl err where e: "e = Callback sl err" by (cases e) simp_all
  from callbacks_counted [OF cb] len
  have cnt: "length (filter acked cbs) + length (failures cbs) < totalTasks - 1" by simp
  show ?case
    using cnt by (auto simp: run_append run_Cons run_Nil IH e publish_callback_def
        checkCompletion_def failures_snoc)
qed

lemma run_complete:
  assumes cb: "list_all is_callback cbs" and len: "length cbs = totalTasks"
  shows "run cbs start_tracking =
     \<lparr>errors = failures cbs, successes = length (filter acked cbs),
      responseSent = True, sent = [completion cbs]\<rparr>"
proof -
  from len obtain xs e where split: "cbs = xs @ [e]"
    by (cases cbs rule: rev_cases) (simp_all add: totalTasks_def)
  with cb len have cbx: "list_all is_callback xs" and lenx: "length xs < totalTasks"
    and lenx': "Suc (length xs) = totalTasks" by simp_all
  from cb split obtain sl err where e: "e = Callback sl err" by (cases e) simp_all
  from callbacks_counted [OF cbx] lenx'
  have cnt: "Suc (length (filter acked xs) + length (failures xs)) = totalTasks" by simp
  show ?thesis
    using cnt by (auto simp: split run_append run_Cons run_Nil run_waiting [OF cbx lenx] e
        publish_callback_def checkCompletion_def failures_snoc completion_def)
qed

lemma sent_complete:
  assumes "list_all is_callback cbs" and "length cbs = totalTasks"
  shows "sent (run (cbs @ rest) start_tracking) = [completion cbs]"
proof -
  have "responseSent (run cbs start_tracking)" by (simp add: run_complete [OF assms])
  from run_after_response [OF this, of rest] show ?thesis
    by (simp add: run_append run_complete [OF assms])
qed

lemma sent_timeout:
  assumes "list_all is_callback cbs" and "length cbs < totalTasks"
  shows "sent (run (cbs @ TimeoutExpired # rest) start_tracking) = [publish_timeout (failures cbs)]"
proof -
  let ?st = "step TimeoutExpired (run cbs start_tracking)"
  have st: "responseSent ?st" "sent ?st = [publish_timeout (failures cbs)]"
    by (simp_all add: run_waiting [OF assms] timeout_callback_def)
  from run_after_response [OF st(1), of rest] st(2) show ?thesis
    by (simp add: run_append run_Cons)
qed

definition tidy :: "pending \<Rightarrow> bool" where
  "tidy st = (length (sent st) = (if responseSent st then 1 else 0))"

lemma tidy_step: "tidy st \<Longrightarrow> tidy (step e st)"
  by (cases e) (auto simp: tidy_def publish_callback_def checkCompletion_def timeout_callback_def)

lemma tidy_run: "tidy st \<Longrightarrow> tidy (run evs st)"
  by (induction evs arbitrary: st) (simp_all add: run_Nil run_Cons tidy_step)

lemma tidy_start: "tidy start_tracking" by (simp add: tidy_def start_tracking_def)

lemma timeout_responds: "responseSent (step TimeoutExpired st)"
  by (simp add: timeout_callback_def)

lemma run_timeout_responded:
  "TimeoutExpired \<in> set evs \<Longrightarrow> responseSent (run evs st)"
proof -
  assume "TimeoutExpired \<in> set evs"
  then obtain pre post where "evs = pre @ TimeoutExpired # post" by (meson split_list)
  then show ?thesis
    using run_after_response [OF timeout_responds, of post "run pre st"]
    by (simp add: run_append run_Cons)
qed


lemma UNIV_slot: "UNIV = {Start, Finish, Lap, TotalLaps, IdealTime}"
  by (auto intro: slot.exhaust)

lemma slots_append: "slots (xs @ ys) = slots xs @ slots ys"
  by (simp add: slots_def)

lemma slots_Cons: "slots (Callback sl err # xs) = sl # slots xs"
  by (simp add: slots_def)

lemma length_slots: "list_all is_callback xs \<Longrightarrow> length (slots xs) = length xs"
proof (induction xs)
  case Nil
  then show ?case by (simp add: slots_def)
next
  case (Cons e xs)
  then show ?case by (cases e) (simp_all add: slots_def)
qed

lemma set_slots: "set (slots xs) = {sl. \<exists>err. Callback sl err \<in> set xs}"
proof (induction xs)
  case Nil
  then show ?case by (simp add: slots_def)
next
  case (Cons e xs)
  then show ?case by (cases e) (auto simp: slots_def)
qed

lemma set_failed_slots: "set (failed_slots xs) = {sl. Callback sl True \<in> set xs}"
proof (induction xs)
  case Nil
  then show ?case by (simp add: failed_slots_def)
next
  case (Cons e xs)
  then show ?case by (cases e) (auto simp: failed_slots_def)
qed

lemma failed_slots_sub: "set (failed_slots xs) \<subseteq> set (slots xs)"
  by (auto simp: set_failed_slots set_slots)

lemma distinct_failed_slots: "distinct (slots xs) \<Longrightarrow> distinct (failed_slots xs)"
proof (induction xs)
  case Nil
  then show ?case by (simp add: failed_slots_def)
next
  case (Cons e xs)
  show ?case
  proof (cases e)
    case (Callback sl err)
    with Cons.prems have d: "distinct (slots xs)" and n: "sl \<notin> set (slots xs)"
      by (simp_all add: slots_Cons)
    from n failed_slots_sub [of xs] have "sl \<notin> set (failed_slots xs)" by auto
    moreover have "failed_slots (e # xs) = (if err then [sl] else []) @ failed_slots xs"
      by (simp add: failed_slots_def Callback)
    ultimately show ?thesis using Cons.IH [OF d] by simp
  next
    case TimeoutExpired
    with Cons show ?thesis by (simp add: failed_slots_def slots_def)
  qed
qed

lemma failures_failed_slots: "failures xs = map failure_text (failed_slots xs)"
proof (induction xs)
  case Nil
  then show ?case by (simp add: failures_def failed_slots_def)
next
  case (Cons e xs)
  then show ?case by (cases e) (simp_all add: failures_def failed_slots_def)
qed

lemma no_failures_iff: "list_all is_callback xs \<Longrightarrow> failures xs = [] \<longleftrightarrow> list_all acked xs"
proof (induction xs)
  case Nil
  then show ?case by (simp add: failures_def)
next
  case (Cons e xs)
  then show ?case by (cases e) (simp_all add: failures_def)
qed

lemma all_slots_called:
  assumes "list_all is_callback cbs" and "distinct (slots cbs)" and "length cbs = totalTasks"
  shows "set (slots cbs) = UNIV"
proof -
  have "card (set (slots cbs)) = 5"
    using assms length_slots [OF assms(1)] by (simp add: distinct_card totalTasks_def)
  moreover have "card (UNIV :: slot set) = 5" by (simp add: UNIV_slot)
  moreover have "finite (UNIV :: slot set)" by (simp add: UNIV_slot)
  ultimately show ?thesis by (intro card_subset_eq) simp_all
qed

lemma sent_run_cases:
  "sent (run evs start_tracking) =
     (let pre = takeWhile is_callback evs in
      if totalTasks \<le> length pre then [completion (take totalTasks pre)]
      else if pre = evs then [] else [publish_timeout (failures pre)])"
proof -
  define pre where "pre = takeWhile is_callback evs"
  define post where "post = dropWhile is_callback evs"
  have evs: "evs = pre @ post" by (simp add: pre_def post_def)
  have cb: "list_all is_callback pre"
    unfolding pre_def list_all_iff by (auto dest: set_takeWhileD)
  have "sent (run evs start_tracking) =
     (if totalTasks \<le> length pre then [completion (take totalTasks pre)]
      else if pre = evs then [] else [publish_timeout (failures pre)])"
  proof (cases "totalTasks \<le> length pre")
    case True
    let ?cbs = "take totalTasks pre"
    have "list_all is_callback ?cbs" using cb by (auto simp: list_all_iff dest: in_set_takeD)
    moreover have "length ?cbs = totalTasks" using True by simp
    moreover have "evs = ?cbs @ (drop totalTasks pre @ post)" by (simp add: evs)
    ultimately have "sent (run evs start_tracking) = [completion ?cbs]"
      using sent_complete [of ?cbs "drop totalTasks pre @ post"] by simp
    with True show ?thesis by simp
  next
    case False
    then have len: "length pre < totalTasks" by simp
    show ?thesis
    proof (cases post)
      case Nil
      with evs have pe: "pre = evs" by simp
      have "sent (run pre start_tracking) = []" by (simp add: run_waiting [OF cb len])
      then have "sent (run evs start_tracking) = []" by (simp only: pe)
      with False pe show ?thesis by simp
    next
      case (Cons e rest)
      have "\<not> is_callback e"
        using Cons hd_dropWhile [of is_callback evs] by (simp add: post_def)
      then have e: "e = TimeoutExpired" by (cases e) simp_all
      have ne: "pre \<noteq> evs" using evs Cons by simp
      have "evs = pre @ TimeoutExpired # rest" using evs Cons e by simp
      then have "sent (run evs start_tracking) = [publish_timeout (failures pre)]"
        using sent_timeout [OF cb len, of rest] by (simp only:)
      with False ne show ?thesis by simp
    qed
  qed
  then show ?thesis by (simp only: Let_def pre_def)
qed

lemma responses_Publishing:
  "set_lines rt c b = Publishing ps \<Longrightarrow> responses rt c b evs = sent (run evs start_tracking)"
  by (simp add: responses_def)

lemma timeout_not_success: "publish_timeout errs \<noteq> publish_success"
  by (simp add: publish_timeout_def publish_success_def)

lemma failure_not_success: "publish_failure errs \<noteq> publish_success"
  by (simp add: publish_failure_def publish_success_def)

lemma success_only_when:
  assumes d: "distinct (slots evs)"
    and s: "publish_success \<in> set (sent (run evs start_tracking))"
  shows "Callback sl False \<in> set (takeWhile is_callback evs)"
proof -
  define pre where "pre = takeWhile is_callback evs"
  define cbs where "cbs = take totalTasks pre"
  have cb: "list_all is_callback pre"
    unfolding pre_def list_all_iff by (auto dest: set_takeWhileD)
  from s have len: "totalTasks \<le> length pre" and c: "completion cbs = publish_success"
    unfolding sent_run_cases Let_def pre_def [symmetric] cbs_def
    by (auto simp: timeout_not_success timeout_not_success [symmetric] split: if_splits)
  from c have nf: "failures cbs = []"
    by (auto simp: completion_def failure_not_success split: if_splits)
  have cbc: "list_all is_callback cbs"
    using cb by (auto simp: cbs_def list_all_iff dest: in_set_takeD)
  have lc: "length cbs = totalTasks" using len by (simp add: cbs_def)
  have "evs = (take totalTasks pre @ drop totalTasks pre) @ dropWhile is_callback evs"
    unfolding append_take_drop_id by (simp add: pre_def)
  then have "evs = cbs @ (drop totalTasks pre @ dropWhile is_callback evs)"
    by (simp only: cbs_def append_assoc)
  then have "slots evs = slots cbs @ slots (drop totalTasks pre @ dropWhile is_callback evs)"
    by (metis slots_append)
  with d have dc: "distinct (slots cbs)" by simp
  from all_slots_called [OF cbc dc lc] have "sl \<in> set (slots cbs)" by simp
  then obtain err where m: "Callback sl err \<in> set cbs" by (auto simp: set_slots)
  from nf cbc have "list_all acked cbs" by (simp add: no_failures_iff)
  with m have "\<not> err" by (auto simp: list_all_iff)
  with m have "Callback sl False \<in> set cbs" by simp
  then show ?thesis by (auto simp: cbs_def pre_def dest: in_set_takeD)
qed

lemmas tracking_defs = run_def publish_callback_def checkCompletion_def timeout_callback_def
  start_tracking_def totalTasks_def failure_text_def

text \<open>
  Claim C1, as the code has it. For every request that passes validation while the MQTT
  client is connected, and every order in which the callbacks of the five publishes run
  before the timer of 10 seconds: the one response is the success report (200,
  \<open>All lines and config published successfully!\<close>) when no callback reported an error,
  and else the failure report (500) whose details hold one entry for each failed topic,
  in the order of the callbacks. In no execution is success reported unless each of the
  five publishes was acknowledged without error before the timer.
\<close>

theorem completion_report:
  assumes "validate b = None"
  shows "(all_called_back cbs \<longrightarrow>
            responses rt True b (cbs @ rest)
              = [if list_all acked cbs then publish_success
                 else publish_failure (map failure_text (failed_slots cbs))]
            \<and> distinct (failed_slots cbs)
            \<and> set (failed_slots cbs) = {sl. Callback sl True \<in> set cbs})
       \<and> (distinct (slots evs) \<and> publish_success \<in> set (responses rt c b evs) \<longrightarrow>
            (\<forall>sl. Callback sl False \<in> set (takeWhile is_callback evs)))"
proof (intro conjI impI allI)
  from set_lines_valid(2) [OF assms, of rt]
  obtain ps where ps: "set_lines rt True b = Publishing ps" by auto
  assume a: "all_called_back cbs"
  then have cb: "list_all is_callback cbs" and len: "length cbs = totalTasks"
    and d: "distinct (slots cbs)" by (simp_all add: all_called_back_def)
  show "responses rt True b (cbs @ rest)
          = [if list_all acked cbs then publish_success
             else publish_failure (map failure_text (failed_slots cbs))]"
    using sent_complete [OF cb len, of rest] no_failures_iff [OF cb]
    by (simp add: responses_Publishing [OF ps] completion_def failures_failed_slots)
  show "distinct (failed_slots cbs)" by (rule distinct_failed_slots [OF d])
  show "set (failed_slots cbs) = {sl. Callback sl True \<in> set cbs}" by (rule set_failed_slots)
next
  fix sl
  assume a: "distinct (slots evs) \<and> publish_success \<in> set (responses rt c b evs)"
  show "Callback sl False \<in> set (takeWhile is_callback evs)"
  proof (cases c)
    case True
    from set_lines_valid(2) [OF assms, of rt]
    obtain ps where ps: "set_lines rt True b = Publishing ps" by auto
    with a True have "publish_success \<in> set (sent (run evs start_tracking))"
      by (simp add: responses_def)
    with a show ?thesis by (intro success_only_when) simp_all
  next
    case False
    with a set_lines_valid(1) [OF assms, of rt] show ?thesis
      by (simp add: responses_def not_connected_def publish_success_def)
  qed
qed

theorem completion_report_witness:
  "validate sample_body = None \<and> all_called_back lap_fails
   \<and> responses sample_rt True sample_body (lap_fails @ [TimeoutExpired])
       = [publish_failure [''Failed Lap line.'']]
   \<and> failed_slots lap_fails = [Lap]
   \<and> distinct (slots all_acked)
   \<and> responses sample_rt True sample_body all_acked = [publish_success]
   \<and> Callback Lap False \<in> set (takeWhile is_callback all_acked)"
proof -
  have a: "all_called_back lap_fails"
    by (simp add: all_called_back_def lap_fails_def slots_def totalTasks_def)
  have f: "failed_slots lap_fails = [Lap]" by (simp add: failed_slots_def lap_fails_def)
  have n: "\<not> list_all acked lap_fails" by (simp add: lap_fails_def)
  have d: "distinct (slots all_acked)" by (simp add: slots_def all_acked_def)
  have r: "responses sample_rt True sample_body all_acked = [publish_success]"
    by (simp add: responses_def sample_set_lines all_acked_def tracking_defs)
  from completion_report [OF sample_body_valid, of lap_fails sample_rt "[TimeoutExpired]"
      all_acked True] a f n d r
  show ?thesis by (simp add: sample_body_valid failure_text_def)
qed

text \<open>
  Claim C1 as stated gives the failure report (500) whenever a callback reports an error,
  and success whenever the five publishes are acknowledged. When the timer runs first the
  response is the timeout report (508) in both cases: below, the Lap publish fails and the
  timer expires before the other four callbacks; and the timer expires before five
  callbacks without error.
\<close>

theorem timeout_preempts_report:
  "validate sample_body = None
   \<and> responses sample_rt True sample_body
        [Callback Lap True, TimeoutExpired, Callback Start False, Callback Finish False,
         Callback TotalLaps False, Callback IdealTime False]
       = [publish_timeout [''Failed Lap line.'']]
   \<and> status (publish_timeout [''Failed Lap line.'']) = 508
   \<and> responses sample_rt True sample_body
        [TimeoutExpired, Callback Start False, Callback Finish False, Callback Lap False,
         Callback TotalLaps False, Callback IdealTime False]
       = [publish_timeout []]"
  by (simp add: sample_body_valid responses_def sample_set_lines tracking_defs publish_timeout_def)

text \<open>
  Claim C3. When fewer than five callbacks have run as the timer of 10 seconds expires,
  the one response is the timeout report: status 508 and a message saying that some
  settings might not have saved, with the errors received so far; its status and its
  message differ from those of the failure report and of the success report.
\<close>

theorem timeout_report:
  assumes "set_lines rt c b = Publishing ps"
    and "list_all is_callback cbs" and "length cbs < totalTasks"
  shows "responses rt c b (cbs @ TimeoutExpired # late) = [publish_timeout (failures cbs)]
       \<and> status (publish_timeout (failures cbs)) = 508
       \<and> message (publish_timeout (failures cbs))
           = ''Timeout waiting for all MQTT publish confirmations. Some settings might not have saved.''
       \<and> status (publish_timeout (failures cbs)) \<noteq> status (publish_failure errs)
       \<and> message (publish_timeout (failures cbs)) \<noteq> message (publish_failure errs)
       \<and> status (publish_timeout (failures cbs)) \<noteq> status publish_success"
  using sent_timeout [OF assms(2,3), of late]
  by (simp add: responses_Publishing [OF assms(1)] publish_timeout_def publish_failure_def
      publish_success_def)

theorem timeout_report_witness:
  "set_lines sample_rt True sample_body = Publishing sample_publishes
   \<and> responses sample_rt True sample_body
        ([Callback Start False, Callback Lap True] @ TimeoutExpired # [Callback Finish False])
       = [publish_timeout [''Failed Lap line.'']]"
proof -
  have "list_all is_callback [Callback Start False, Callback Lap True]" by simp
  moreover have "length [Callback Start False, Callback Lap True] < totalTasks"
    by (simp add: totalTasks_def)
  ultimately show ?thesis
    using timeout_report [OF sample_set_lines, of "[Callback Start False, Callback Lap True]"
        "[Callback Finish False]"]
    by (simp add: sample_set_lines failures_def failure_text_def)
qed

text \<open>
  Claim C8. Every execution of the handler sends at most one response, and exactly one
  once the timer has expired: the completion check and the timer never both respond, and
  a callback that runs after the timeout response changes nothing of what was sent.
\<close>

theorem one_response:
  "length (responses rt c b evs) \<le> 1
   \<and> (TimeoutExpired \<in> set evs \<longrightarrow> length (responses rt c b evs) = 1)
   \<and> responses rt c b (pre @ TimeoutExpired # late) = responses rt c b (pre @ [TimeoutExpired])"
proof (cases "set_lines rt c b")
  case (Respond r)
  then show ?thesis by (simp add: responses_def)
next
  case (Publishing ps)
  have t: "tidy (run evs start_tracking)" by (rule tidy_run [OF tidy_start])
  then have "length (sent (run evs start_tracking)) \<le> 1" by (simp add: tidy_def split: if_splits)
  moreover have "TimeoutExpired \<in> set evs \<longrightarrow> length (sent (run evs start_tracking)) = 1"
    using t run_timeout_responded [of evs start_tracking] by (auto simp: tidy_def)
  moreover have "sent (run (pre @ TimeoutExpired # late) start_tracking)
      = sent (run (pre @ [TimeoutExpired]) start_tracking)"
    using run_after_response [OF timeout_responds, of late "run pre start_tracking"]
    by (simp add: run_append run_Cons run_Nil)
  ultimately show ?thesis by (simp add: responses_Publishing [OF Publishing])
next
  case Throws
  with reads_after_validation_never_throw show ?thesis by blast
qed

theorem one_response_witness:
  "TimeoutExpired \<in> set (all_acked @ [TimeoutExpired])
   \<and> length (responses sample_rt True sample_body (all_acked @ [TimeoutExpired])) = 1
   \<and> responses sample_rt True sample_body ([Callback Lap True] @ TimeoutExpired # all_acked)
       = [publish_timeout [''Failed Lap line.'']]"
proof -
  have "responses sample_rt True sample_body ([Callback Lap True] @ [TimeoutExpired])
       = [publish_timeout [''Failed Lap line.'']]"
    by (simp add: responses_def sample_set_lines tracking_defs)
  then show ?thesis
    using one_response [of sample_rt True sample_body "all_acked @ [TimeoutExpired]"
        "[Callback Lap True]" all_acked]
    by simp
qed

section \<open>What stays applied, and replaying an update\<close>

lemma broker_apply_snoc: "broker_apply (qs @ [q]) m = retain q (broker_apply qs m)"
  by (simp add: broker_apply_def)

lemma broker_apply_lookup:
  "p \<in> set qs \<Longrightarrow> \<forall>q\<in>set qs. p_retain q \<Longrightarrow>
   \<forall>q\<in>set qs. p_topic q = p_topic p \<longrightarrow> p_payload q = p_payload p \<Longrightarrow>
   broker_apply qs m (p_topic p) = Some (p_payload p)"
proof (induction qs rule: rev_induct)
  case Nil
  then show ?case by simp
next
  case (snoc q qs)
  have rq: "p_retain q" using snoc.prems(2) by simp
  show ?case
  proof (cases "p_topic q = p_topic p")
    case True
    with snoc.prems(3) have "p_payload q = p_payload p" by simp
    with True rq show ?thesis by (simp add: broker_apply_snoc retain_def)
  next
    case False
    with snoc.prems(1) have "p \<in> set qs" by auto
    moreover from snoc.prems(2) have "\<forall>q\<in>set qs. p_retain q" by simp
    moreover from snoc.prems(3)
    have "\<forall>q\<in>set qs. p_topic q = p_topic p \<longrightarrow> p_payload q = p_payload p" by simp
    ultimately have "broker_apply qs m (p_topic p) = Some (p_payload p)" by (rule snoc.IH)
    with False show ?thesis by (simp add: broker_apply_snoc retain_def)
  qed
qed

lemma deliver_snoc:
  "deliver (qs @ [q]) cfg = on_message (p_topic q) (p_payload q) (deliver qs cfg)"
  by (simp add: deliver_def)

lemma deliver_Nil: "deliver [] cfg = cfg" by (simp add: deliver_def)

lemma deliver_other:
  "t \<notin> p_topic ` set qs \<Longrightarrow> deliver qs cfg t = cfg t"
proof (induction qs rule: rev_induct)
  case Nil
  show ?case by (simp add: deliver_Nil)
next
  case (snoc q qs)
  from snoc.prems have "t \<notin> p_topic ` set qs" and ne: "p_topic q \<noteq> t" by auto
  with snoc.IH have "deliver qs cfg t = cfg t" by simp
  with ne show ?case unfolding deliver_snoc on_message_def by simp
qed

lemma deliver_lookup:
  "p \<in> set qs \<Longrightarrow> \<forall>q\<in>set qs. p_topic q \<in> set configTopics \<Longrightarrow>
   \<forall>q\<in>set qs. p_topic q = p_topic p \<longrightarrow> p_payload q = p_payload p \<Longrightarrow>
   deliver qs cfg (p_topic p) = Some (p_payload p)"
proof (induction qs rule: rev_induct)
  case Nil
  then show ?case by simp
next
  case (snoc q qs)
  have tq: "p_topic q \<in> set configTopics" using snoc.prems(2) by simp
  show ?case
  proof (cases "p_topic q = p_topic p")
    case True
    with snoc.prems(3) have "p_payload q = p_payload p" by simp
    with True tq show ?thesis unfolding deliver_snoc on_message_def by simp
  next
    case False
    with snoc.prems(1) have "p \<in> set qs" by auto
    moreover from snoc.prems(2) have "\<forall>q\<in>set qs. p_topic q \<in> set configTopics" by simp
    moreover from snoc.prems(3)
    have "\<forall>q\<in>set qs. p_topic q = p_topic p \<longrightarrow> p_payload q = p_payload p" by simp
    ultimately have "deliver qs cfg (p_topic p) = Some (p_payload p)" by (rule snoc.IH)
    with False show ?thesis unfolding deliver_snoc on_message_def by simp
  qed
qed

lemma deliver_same_messages:
  assumes d: "distinct (map p_topic ps)" and c: "\<forall>p\<in>set ps. p_topic p \<in> set configTopics"
    and s: "set qs = set ps"
  shows "deliver qs cfg = deliver ps cfg"
proof
  fix t
  have fn: "\<And>p q. p \<in> set ps \<Longrightarrow> q \<in> set ps \<Longrightarrow> p_topic q = p_topic p \<Longrightarrow> q = p"
  proof -
    fix p q assume "p \<in> set ps" "q \<in> set ps" "p_topic q = p_topic p"
    moreover from d have "inj_on p_topic (set ps)" by (simp add: distinct_map)
    ultimately show "q = p" by (simp add: inj_on_def)
  qed
  show "deliver qs cfg t = deliver ps cfg t"
  proof (cases "t \<in> p_topic ` set ps")
    case True
    then obtain p where p: "p \<in> set ps" and t: "t = p_topic p" by auto
    have "deliver qs cfg (p_topic p) = Some (p_payload p)"
      using p c s fn by (intro deliver_lookup) auto
    moreover have "deliver ps cfg (p_topic p) = Some (p_payload p)"
      using p c fn by (intro deliver_lookup) auto
    ultimately show ?thesis by (simp add: t)
  next
    case False
    with s show ?thesis by (simp add: deliver_other)
  qed
qed

lemma set_acknowledged:
  "set (acknowledged ps evs)
     = {ps ! slot_index sl | sl. Callback sl False \<in> set evs \<and> slot_index sl < length ps}"
proof (induction evs)
  case Nil
  then show ?case by (simp add: acknowledged_def)
next
  case (Cons e evs)
  have step: "acknowledged ps (e # evs)
      = (case e of Callback sl err \<Rightarrow>
           if \<not> err \<and> slot_index sl < length ps then [ps ! slot_index sl] else []
         | TimeoutExpired \<Rightarrow> []) @ acknowledged ps evs"
    by (simp add: acknowledged_def)
  show ?case unfolding step using Cons.IH by (cases e) auto
qed

lemma failed_slots_filter: "failed_slots xs = slots (filter failed xs)"
proof (induction xs)
  case Nil
  then show ?case by (simp add: failed_slots_def slots_def)
next
  case (Cons e xs)
  then show ?case by (cases e) (simp_all add: failed_slots_def slots_def)
qed

lemma distinct_one: "distinct xs \<Longrightarrow> set xs = {a} \<Longrightarrow> xs = [a]"
proof -
  assume d: "distinct xs" and s: "set xs = {a}"
  have "card (set xs) = length xs" by (rule distinct_card [OF d])
  then have "length xs = card {a}" by (simp only: s)
  then have "length xs = Suc 0" by simp
  then obtain y where y: "xs = [y]" by (cases xs) simp_all
  from s have "y = a" unfolding y by simp
  with y show ?thesis by simp
qed

lemma set_lines_publishes:
  assumes "set_lines rt True b = Publishing ps"
  shows "\<exists>x0 x1 x2 x3 x4. ps = [publish MQTT_TOPIC_CONFIG_START x0,
           publish MQTT_TOPIC_CONFIG_FINISH x1, publish MQTT_TOPIC_CONFIG_LAP x2,
           publish MQTT_TOPIC_CONFIG_TOTAL_LAPS x3, publish MQTT_TOPIC_IDEAL_TIME x4]"
proof (cases "validate b")
  case None
  from set_lines_valid(2) [OF None, of rt] assms show ?thesis by auto
next
  case (Some r)
  with assms show ?thesis by (simp add: set_lines_def)
qed

lemma acked_is_callback: "list_all acked xs \<Longrightarrow> list_all is_callback xs"
proof (induction xs)
  case Nil
  then show ?case by simp
next
  case (Cons e xs)
  then show ?case by (cases e) simp_all
qed

lemma run2_Nil: "run2 [] sts = sts" by (simp add: run2_def)

lemma run2_Cons: "run2 (x # xs) sts = run2 xs (step2 x sts)" by (simp add: run2_def)

lemma run2_projections:
  "run2 evs (st1, st2)
     = (run (map snd (filter (\<lambda>x. \<not> fst x) evs)) st1, run (map snd (filter fst evs)) st2)"
proof (induction evs arbitrary: st1 st2)
  case Nil
  then show ?case by (simp add: run2_Nil run_Nil)
next
  case (Cons x evs)
  obtain second e where x: "x = (second, e)" by (cases x)
  show ?case by (cases second) (simp_all add: x run2_Cons run_Cons Cons.IH)
qed

lemma only_lap_fails:
  assumes d: "distinct cbs"
    and s: "set cbs = {Callback Start False, Callback Finish False, Callback Lap True,
                       Callback TotalLaps False, Callback IdealTime False}"
  shows "list_all is_callback cbs" and "length cbs = totalTasks"
    and "failures cbs = [failure_text Lap]" and "length (filter acked cbs) = 4"
proof -
  show cb: "list_all is_callback cbs" unfolding list_all_iff s by simp
  have "card {Callback Start False, Callback Finish False, Callback Lap True,
                       Callback TotalLaps False, Callback IdealTime False} = 5" by simp
  then have "card (set cbs) = 5" by (simp only: s)
  with distinct_card [OF d] show len: "length cbs = totalTasks" by (simp add: totalTasks_def)
  have "set (filter failed cbs) = {Callback Lap True}" unfolding set_filter s by auto
  moreover have "distinct (filter failed cbs)" using d by simp
  ultimately have "filter failed cbs = [Callback Lap True]" by (rule distinct_one [rotated])
  then have "failed_slots cbs = [Lap]" by (simp add: failed_slots_filter slots_def)
  then show f: "failures cbs = [failure_text Lap]" by (simp add: failures_failed_slots)
  from callbacks_counted [OF cb] show "length (filter acked cbs) = 4"
    unfolding f len by (simp add: totalTasks_def)
qed

text \<open>
  Claim C2, as the code has it. In the execution in which the callbacks of the five
  publishes run before the timer, in any order, that of \<open>config/lap_line\<close> with an error
  and the other four without: the one response is the failure report (500) whose details
  are the single entry \<open>Failed Lap line.\<close>; the handler has counted 4 successes, which
  the response does not carry; and the payloads of the four acknowledged publishes are
  retained by the broker on their topics and stored by this server, whatever was there
  before. The callbacks issue no publish, so nothing is rolled back.
\<close>

theorem lap_failure_report:
  assumes ps: "set_lines rt True b = Publishing ps"
    and d: "distinct cbs"
    and s: "set cbs = {Callback Start False, Callback Finish False, Callback Lap True,
                       Callback TotalLaps False, Callback IdealTime False}"
  shows "responses rt True b (cbs @ rest)
           = [\<lparr>status = 500, message = ''Error publishing some configuration parts.'',
               details = Some [''Failed Lap line.'']\<rparr>]
       \<and> successes (run cbs start_tracking) = 4
       \<and> (\<forall>sl. sl \<noteq> Lap \<longrightarrow>
             p_topic (ps ! slot_index sl) = slot_topic sl
             \<and> broker_apply (acknowledged ps cbs) m (slot_topic sl)
                 = Some (p_payload (ps ! slot_index sl))
             \<and> deliver (acknowledged ps cbs) cfg (slot_topic sl)
                 = Some (p_payload (ps ! slot_index sl)))"
proof (intro conjI allI impI)
  note L = only_lap_fails [OF d s]
  show "responses rt True b (cbs @ rest)
           = [\<lparr>status = 500, message = ''Error publishing some configuration parts.'',
               details = Some [''Failed Lap line.'']\<rparr>]"
    using sent_complete [OF L(1,2), of rest]
    by (simp add: responses_Publishing [OF ps] completion_def L(3) publish_failure_def
        failure_text_def)
  show "successes (run cbs start_tracking) = 4"
    by (simp add: run_complete [OF L(1,2)] L(4))
next
  fix sl assume sl: "sl \<noteq> Lap"
  from set_lines_publishes [OF ps] obtain x0 x1 x2 x3 x4 where
    pse: "ps = [publish MQTT_TOPIC_CONFIG_START x0, publish MQTT_TOPIC_CONFIG_FINISH x1,
      publish MQTT_TOPIC_CONFIG_LAP x2, publish MQTT_TOPIC_CONFIG_TOTAL_LAPS x3,
      publish MQTT_TOPIC_IDEAL_TIME x4]" by blast
  let ?qs = "acknowledged ps cbs"
  let ?p = "ps ! slot_index sl"
  have len: "length ps = 5" by (simp add: pse)
  have sub: "set ?qs \<subseteq> set ps" unfolding set_acknowledged by auto
  have dt: "distinct (map p_topic ps)" by (simp add: pse publish_def topic_defs)
  have pin: "?p \<in> set ps" by (cases sl) (simp_all add: pse)
  show t: "p_topic ?p = slot_topic sl" by (cases sl) (simp_all add: pse publish_def)
  have "Callback sl False \<in> set cbs" using sl unfolding s by (cases sl) simp_all
  moreover have "slot_index sl < length ps" unfolding len by (cases sl) simp_all
  ultimately have mem: "?p \<in> set ?qs" unfolding set_acknowledged by blast
  have ret: "\<forall>q\<in>set ?qs. p_retain q"
  proof
    fix q assume "q \<in> set ?qs"
    with sub have "q \<in> set ps" by blast
    then show "p_retain q" by (auto simp: pse publish_def)
  qed
  have top: "\<forall>q\<in>set ?qs. p_topic q \<in> set configTopics"
  proof
    fix q assume "q \<in> set ?qs"
    with sub have "q \<in> set ps" by blast
    then show "p_topic q \<in> set configTopics" by (auto simp: pse publish_def configTopics_def)
  qed
  have fn: "\<forall>q\<in>set ?qs. p_topic q = p_topic ?p \<longrightarrow> p_payload q = p_payload ?p"
  proof (intro ballI impI)
    fix q assume "q \<in> set ?qs" and eq: "p_topic q = p_topic ?p"
    with sub have "q \<in> set ps" by blast
    moreover from dt have "inj_on p_topic (set ps)" by (simp add: distinct_map)
    ultimately have "q = ?p" using pin eq by (simp add: inj_on_def)
    then show "p_payload q = p_payload ?p" by simp
  qed
  from broker_apply_lookup [OF mem ret fn, of m]
  show "broker_apply ?qs m (slot_topic sl) = Some (p_payload ?p)" by (simp only: t)
  from deliver_lookup [OF mem top fn, of cfg]
  show "deliver ?qs cfg (slot_topic sl) = Some (p_payload ?p)" by (simp only: t)
qed

theorem lap_failure_report_witness:
  "set_lines sample_rt True sample_body = Publishing sample_publishes
   \<and> responses sample_rt True sample_body (lap_fails @ [TimeoutExpired])
       = [\<lparr>status = 500, message = ''Error publishing some configuration parts.'',
           details = Some [''Failed Lap line.'']\<rparr>]
   \<and> successes (run lap_fails start_tracking) = 4
   \<and> broker_apply (acknowledged sample_publishes lap_fails) (\<lambda>t. None)
        MQTT_TOPIC_CONFIG_START = Some start_text
   \<and> deliver (acknowledged sample_publishes lap_fails) initialConfig
        MQTT_TOPIC_CONFIG_TOTAL_LAPS = Some ''3''"
proof -
  have d: "distinct lap_fails" by (simp add: lap_fails_def)
  have s: "set lap_fails = {Callback Start False, Callback Finish False, Callback Lap True,
                       Callback TotalLaps False, Callback IdealTime False}"
    by (auto simp: lap_fails_def)
  note T = lap_failure_report [OF sample_set_lines d s, of "[TimeoutExpired]" "\<lambda>t. None"
      initialConfig]
  from T have a: "responses sample_rt True sample_body (lap_fails @ [TimeoutExpired])
       = [\<lparr>status = 500, message = ''Error publishing some configuration parts.'',
           details = Some [''Failed Lap line.'']\<rparr>]"
    and b: "successes (run lap_fails start_tracking) = 4" by simp_all
  from T have "Start \<noteq> Lap \<longrightarrow>
             p_topic (sample_publishes ! slot_index Start) = slot_topic Start
             \<and> broker_apply (acknowledged sample_publishes lap_fails) (\<lambda>t. None) (slot_topic Start)
                 = Some (p_payload (sample_publishes ! slot_index Start))
             \<and> deliver (acknowledged sample_publishes lap_fails) initialConfig (slot_topic Start)
                 = Some (p_payload (sample_publishes ! slot_index Start))" by blast
  then have c: "broker_apply (acknowledged sample_publishes lap_fails) (\<lambda>t. None)
        MQTT_TOPIC_CONFIG_START = Some start_text"
    by (simp add: sample_publishes_def publish_def)
  from T have "TotalLaps \<noteq> Lap \<longrightarrow>
             p_topic (sample_publishes ! slot_index TotalLaps) = slot_topic TotalLaps
             \<and> broker_apply (acknowledged sample_publishes lap_fails) (\<lambda>t. None) (slot_topic TotalLaps)
                 = Some (p_payload (sample_publishes ! slot_index TotalLaps))
             \<and> deliver (acknowledged sample_publishes lap_fails) initialConfig (slot_topic TotalLaps)
                 = Some (p_payload (sample_publishes ! slot_index TotalLaps))" by blast
  then have e: "deliver (acknowledged sample_publishes lap_fails) initialConfig
        MQTT_TOPIC_CONFIG_TOTAL_LAPS = Some ''3''"
    by (simp add: sample_publishes_def publish_def)
  from a b c e sample_set_lines show ?thesis by simp
qed

text \<open>
  Claim C2 as stated has the response report 4 successes. The whole of the response of
  that execution is the status 500 and the body below: a message and the one failure.
\<close>

theorem lap_failure_body_has_no_success_count:
  "map status (responses sample_rt True sample_body lap_fails) = [500]
   \<and> map response_body (responses sample_rt True sample_body lap_fails)
       = [JObj [(''message'', JStr ''Error publishing some configuration parts.''),
                (''details'', JArr [JStr ''Failed Lap line.''])]]
   \<and> successes (run lap_fails start_tracking) = 4"
  by (simp add: responses_def sample_set_lines lap_fails_def tracking_defs publish_failure_def
      response_body_def)

text \<open>
  Claim C7. Two requests with the same valid body, each acknowledged five times without
  error before its timer, the callbacks of the two interleaved in any way: each request
  is answered with the success report, the second from its own counters whatever the
  state of the first; and the messages of the two updates, delivered in any order,
  leave the stored configuration as one update leaves it.
\<close>

theorem replay_is_idempotent:
  assumes ps: "set_lines rt True b = Publishing ps"
    and e1: "map snd (filter (\<lambda>x. \<not> fst x) evs) = cbs1 @ rest1"
    and a1: "list_all acked cbs1" and l1: "length cbs1 = totalTasks"
    and e2: "map snd (filter fst evs) = cbs2 @ rest2"
    and a2: "list_all acked cbs2" and l2: "length cbs2 = totalTasks"
  shows "sent (fst (run2 evs (start_tracking, start_tracking))) = [publish_success]
       \<and> sent (snd (run2 evs (start_tracking, start_tracking))) = [publish_success]
       \<and> snd (run2 evs (st1, start_tracking)) = run (cbs2 @ rest2) start_tracking
       \<and> deliver (ps @ ps) cfg = deliver ps cfg
       \<and> (set qs = set ps \<longrightarrow> deliver qs cfg = deliver ps cfg)"
proof -
  from set_lines_publishes [OF ps] obtain x0 x1 x2 x3 x4 where
    pse: "ps = [publish MQTT_TOPIC_CONFIG_START x0, publish MQTT_TOPIC_CONFIG_FINISH x1,
      publish MQTT_TOPIC_CONFIG_LAP x2, publish MQTT_TOPIC_CONFIG_TOTAL_LAPS x3,
      publish MQTT_TOPIC_IDEAL_TIME x4]" by blast
  have d: "distinct (map p_topic ps)" by (simp add: pse publish_def topic_defs)
  have c: "\<forall>p\<in>set ps. p_topic p \<in> set configTopics"
    by (simp add: pse publish_def configTopics_def)
  have ok: "\<And>cbs rest. list_all acked cbs \<Longrightarrow> length cbs = totalTasks \<Longrightarrow>
      sent (run (cbs @ rest) start_tracking) = [publish_success]"
  proof -
    fix cbs rest assume a: "list_all acked cbs" and l: "length cbs = totalTasks"
    from acked_is_callback [OF a] have cb: "list_all is_callback cbs" .
    from no_failures_iff [OF cb] a have "failures cbs = []" by simp
    with sent_complete [OF cb l, of rest] show
      "sent (run (cbs @ rest) start_tracking) = [publish_success]"
      by (simp add: completion_def)
  qed
  have "sent (fst (run2 evs (start_tracking, start_tracking))) = [publish_success]"
    by (simp add: run2_projections e1 ok [OF a1 l1])
  moreover have "sent (snd (run2 evs (start_tracking, start_tracking))) = [publish_success]"
    by (simp add: run2_projections e2 ok [OF a2 l2])
  moreover have "snd (run2 evs (st1, start_tracking)) = run (cbs2 @ rest2) start_tracking"
    by (simp add: run2_projections e2)
  moreover have "deliver (ps @ ps) cfg = deliver ps cfg"
    by (rule deliver_same_messages [OF d c]) simp
  moreover have "set qs = set ps \<longrightarrow> deliver qs cfg = deliver ps cfg"
    using deliver_same_messages [OF d c] by blast
  ultimately show ?thesis by blast
qed

theorem replay_is_idempotent_witness:
  "set_lines sample_rt True sample_body = Publishing sample_publishes
   \<and> sent (fst (run2 interleaved (start_tracking, start_tracking))) = [publish_success]
   \<and> sent (snd (run2 interleaved (start_tracking, start_tracking))) = [publish_success]
   \<and> deliver (sample_publishes @ sample_publishes) initialConfig
       = deliver sample_publishes initialConfig
   \<and> deliver (rev sample_publishes @ sample_publishes) initialConfig
       = deliver sample_publishes initialConfig"
proof -
  let ?c1 = "[Callback Start False, Callback Finish False, Callback Lap False,
     Callback TotalLaps False, Callback IdealTime False]"
  let ?c2 = "[Callback Lap False, Callback Start False, Callback IdealTime False,
     Callback TotalLaps False, Callback Finish False]"
  have e1: "map snd (filter (\<lambda>x. \<not> fst x) interleaved) = ?c1 @ [TimeoutExpired]"
    by (simp add: interleaved_def)
  have e2: "map snd (filter fst interleaved) = ?c2 @ [TimeoutExpired]"
    by (simp add: interleaved_def)
  have a1: "list_all acked ?c1" and a2: "list_all acked ?c2" by simp_all
  have l1: "length ?c1 = totalTasks" and l2: "length ?c2 = totalTasks"
    by (simp_all add: totalTasks_def)
  have s: "set (rev sample_publishes @ sample_publishes) = set sample_publishes" by auto
  note T = replay_is_idempotent [OF sample_set_lines e1 a1 l1 e2 a2 l2, of start_tracking
      initialConfig "rev sample_publishes @ sample_publishes"]
  note T1 = conjunct1 [OF T]
  note T2 = conjunct1 [OF conjunct2 [OF T]]
  note T4 = conjunct1 [OF conjunct2 [OF conjunct2 [OF conjunct2 [OF T]]]]
  note T5 = mp [OF conjunct2 [OF conjunct2 [OF conjunct2 [OF conjunct2 [OF T]]]] s]
  show ?thesis by (intro conjI) (rule sample_set_lines T1 T2 T4 T5)+
qed

section \<open>Reading the configuration back\<close>

lemma isNaN_iff: "isNaN n \<longleftrightarrow> n = NaN"
  by (cases n) simp_all

lemma read_total_laps_spec:
  "parseInt10 rt [] = NaN \<Longrightarrow>
   read_total_laps rt stored = parsed_or_default (parseInt10 rt) 0 stored"
  by (simp add: read_total_laps_def parsed_or_default_def isNaN_iff Let_def split: option.splits)

lemma read_ideal_time_spec:
  "parseFloat rt [] = NaN \<Longrightarrow>
   read_ideal_time rt stored = parsed_or_default (parseFloat rt) 60 stored"
  by (simp add: read_ideal_time_def parsed_or_default_def isNaN_iff Let_def split: option.splits)

lemmas get_defs = get_config_def read_line_def read_total_laps_def read_ideal_time_def
  initialConfig_def topic_defs own_prop_def

lemma get_prop_indexable:
  "get_prop v name = (if indexable v then Some (property v name) else None)"
  by (cases v) simp_all

lemma get_index_None_iff: "get_index v i = None \<longleftrightarrow> \<not> indexable v"
  by (cases v) simp_all

lemma read_line_ok_iff: "read_line rt stored \<noteq> None \<longleftrightarrow> line_stored_ok rt stored"
proof (cases stored)
  case None
  then show ?thesis by (simp add: read_line_def line_stored_ok_def)
next
  case (Some payload)
  show ?thesis
  proof (cases "payload = []")
    case True
    with Some show ?thesis by (simp add: read_line_def line_stored_ok_def)
  next
    case False
    show ?thesis
    proof (cases "JSON_parse rt payload")
      case None
      with Some False show ?thesis by (simp add: read_line_def line_stored_ok_def)
    next
      case (Some data)
      have i: "\<And>v i. indexable v \<Longrightarrow> \<exists>x. get_index v i = Some x"
        using get_index_None_iff by (metis not_Some_eq)
      have n: "\<And>v i. \<not> indexable v \<Longrightarrow> get_index v i = None"
        by (simp add: get_index_None_iff)
      show ?thesis
      proof (cases "indexable data \<and> indexable (property data ''p1'')
                      \<and> indexable (property data ''p2'')")
        case True
        then obtain a b c d where
          "get_index (property data ''p1'') 1 = Some a" "get_index (property data ''p1'') 0 = Some b"
          "get_index (property data ''p2'') 1 = Some c" "get_index (property data ''p2'') 0 = Some d"
          using i by metis
        with True Some False \<open>stored = Some payload\<close> show ?thesis
          by (simp add: read_line_def line_stored_ok_def get_prop_indexable)
      next
        case bad: False
        have "read_line rt stored = None"
        proof (cases "indexable data")
          case False
          with Some \<open>payload \<noteq> []\<close> \<open>stored = Some payload\<close> show ?thesis
            by (simp add: read_line_def get_prop_indexable)
        next
          case True
          show ?thesis
          proof (cases "indexable (property data ''p1'')")
            case False
            with True Some \<open>payload \<noteq> []\<close> \<open>stored = Some payload\<close> show ?thesis
              by (simp add: read_line_def get_prop_indexable n)
          next
            case p1: True
            with bad True have p2: "\<not> indexable (property data ''p2'')" by simp
            from i [OF p1] obtain a b where
              "get_index (property data ''p1'') 1 = Some a"
              "get_index (property data ''p1'') 0 = Some b" by metis
            with True p2 Some \<open>payload \<noteq> []\<close> \<open>stored = Some payload\<close> show ?thesis
              by (simp add: read_line_def get_prop_indexable n)
          qed
        qed
        with bad Some False \<open>stored = Some payload\<close> show ?thesis
          by (simp add: line_stored_ok_def)
      qed
    qed
  qed
qed

lemma lines_readable_iff:
  "lines_readable rt cfg \<longleftrightarrow>
     read_line rt (cfg MQTT_TOPIC_CONFIG_START) \<noteq> None
     \<and> read_line rt (cfg MQTT_TOPIC_CONFIG_FINISH) \<noteq> None
     \<and> read_line rt (cfg MQTT_TOPIC_CONFIG_LAP) \<noteq> None"
  by (simp only: lines_readable_def read_line_ok_iff)

lemma get_config_readable:
  "lines_readable rt cfg \<Longrightarrow>
   \<exists>s f l. get_config rt cfg = Inr \<lparr>r_start = s, r_finish = f, r_lap = l,
       r_totalLaps = read_total_laps rt (cfg MQTT_TOPIC_CONFIG_TOTAL_LAPS),
       r_idealTime = read_ideal_time rt (cfg MQTT_TOPIC_IDEAL_TIME)\<rparr>"
  by (auto simp: lines_readable_iff get_config_def)

lemma get_config_unreadable:
  "\<not> lines_readable rt cfg \<Longrightarrow> get_config rt cfg = Inl parse_error"
  by (auto simp: lines_readable_iff get_config_def split: option.splits)

lemma lines_readable_numeric:
  "lines_readable rt (cfg(MQTT_TOPIC_CONFIG_TOTAL_LAPS := x, MQTT_TOPIC_IDEAL_TIME := y))
     = lines_readable rt cfg"
  by (simp add: lines_readable_def topic_defs)

lemma wire_number: "wire (JNum n) = json_number (JNum n)"
  by (cases n) simp_all

lemma reply_numbers:
  "own_prop (wire_props [(''start'', s), (''finish'', f), (''lap'', l),
      (''totalLaps'', JNum a), (''idealTime'', JNum b)]) ''totalLaps'' = json_number (JNum a)"
  "own_prop (wire_props [(''start'', s), (''finish'', f), (''lap'', l),
      (''totalLaps'', JNum a), (''idealTime'', JNum b)]) ''idealTime'' = json_number (JNum b)"
  by (simp_all add: own_prop_def wire_number)

text \<open>
  Claim C5, as the code has it. Let empty text parse to NaN, as \<open>parseInt\<close> and
  \<open>parseFloat\<close> do. When the three stored line payloads are readable, the answer is 200
  and the JSON body carries, for \<open>totalLaps\<close> and \<open>idealTime\<close>, the number parsed from
  the stored text, or the default (0, or 60) when the topic has no value or its text
  parses to NaN; a parsed number that is an infinity arrives as \<open>null\<close>, which is what
  \<open>json_number\<close> gives for it. When a line payload is not readable the answer is the
  500 of the \<open>catch\<close> (lines 130-134), whatever the numeric topics hold. The values of
  the two numeric topics have no part in whether the lines are readable.
\<close>

theorem get_config_numeric_defaults:
  assumes "parseInt10 rt [] = NaN" and "parseFloat rt [] = NaN"
  shows "(lines_readable rt cfg \<longrightarrow>
            (\<exists>body. get_config_reply rt cfg = (200, JObj body)
               \<and> own_prop body ''totalLaps''
                   = json_number (JNum (parsed_or_default (parseInt10 rt) 0
                        (cfg MQTT_TOPIC_CONFIG_TOTAL_LAPS)))
               \<and> own_prop body ''idealTime''
                   = json_number (JNum (parsed_or_default (parseFloat rt) 60
                        (cfg MQTT_TOPIC_IDEAL_TIME)))))
       \<and> (\<not> lines_readable rt cfg \<longrightarrow>
            get_config_reply rt cfg
              = (500, JObj [(''message'',
                             JStr ''Error parsing stored line configuration from MQTT.'')]))
       \<and> lines_readable rt (cfg(MQTT_TOPIC_CONFIG_TOTAL_LAPS := x, MQTT_TOPIC_IDEAL_TIME := y))
           = lines_readable rt cfg"
proof (intro conjI impI)
  assume "lines_readable rt cfg"
  from get_config_readable [OF this] obtain s f l where
    g: "get_config rt cfg = Inr \<lparr>r_start = s, r_finish = f, r_lap = l,
       r_totalLaps = read_total_laps rt (cfg MQTT_TOPIC_CONFIG_TOTAL_LAPS),
       r_idealTime = read_ideal_time rt (cfg MQTT_TOPIC_IDEAL_TIME)\<rparr>" by blast
  let ?a = "parsed_or_default (parseInt10 rt) 0 (cfg MQTT_TOPIC_CONFIG_TOTAL_LAPS)"
  let ?b = "parsed_or_default (parseFloat rt) 60 (cfg MQTT_TOPIC_IDEAL_TIME)"
  let ?body = "wire_props [(''start'', s), (''finish'', f), (''lap'', l),
      (''totalLaps'', JNum ?a), (''idealTime'', JNum ?b)]"
  have "get_config_reply rt cfg = (200, JObj ?body)"
    by (simp add: get_config_reply_def g read_total_laps_spec [OF assms(1)]
        read_ideal_time_spec [OF assms(2)])
  with reply_numbers [of s f l ?a ?b]
  show "\<exists>body. get_config_reply rt cfg = (200, JObj body)
               \<and> own_prop body ''totalLaps'' = json_number (JNum ?a)
               \<and> own_prop body ''idealTime'' = json_number (JNum ?b)"
    by (intro exI [of _ ?body] conjI)
next
  assume "\<not> lines_readable rt cfg"
  from get_config_unreadable [OF this]
  show "get_config_reply rt cfg
      = (500, JObj [(''message'', JStr ''Error parsing stored line configuration from MQTT.'')])"
    by (simp add: get_config_reply_def parse_error_def response_body_def)
next
  show "lines_readable rt (cfg(MQTT_TOPIC_CONFIG_TOTAL_LAPS := x, MQTT_TOPIC_IDEAL_TIME := y))
           = lines_readable rt cfg" by (rule lines_readable_numeric)
qed

theorem get_config_numeric_defaults_witness:
  "lines_readable sample_rt defaulted_config
   \<and> get_config_reply sample_rt defaulted_config
       = (200, JObj [(''start'', sample_start), (''finish'', JNull), (''lap'', JNull),
                     (''totalLaps'', JNum (Fin 0)), (''idealTime'', JNum (Fin 60))])
   \<and> \<not> lines_readable sample_rt unreadable_config
   \<and> get_config_reply sample_rt unreadable_config
       = (500, JObj [(''message'',
                      JStr ''Error parsing stored line configuration from MQTT.'')])"
proof -
  have a: "parseInt10 sample_rt [] = NaN" and b: "parseFloat sample_rt [] = NaN"
    by (simp_all add: sample_rt_def)
  have r: "lines_readable sample_rt defaulted_config"
    by (simp add: lines_readable_def line_stored_ok_def defaulted_config_def get_defs
        sample_defs)
  have n: "\<not> lines_readable sample_rt unreadable_config"
    by (simp add: lines_readable_def line_stored_ok_def unreadable_config_def get_defs
        sample_defs)
  have g: "get_config_reply sample_rt defaulted_config
       = (200, JObj [(''start'', sample_start), (''finish'', JNull), (''lap'', JNull),
                     (''totalLaps'', JNum (Fin 0)), (''idealTime'', JNum (Fin 60))])"
    by (simp add: get_config_reply_def defaulted_config_def get_defs sample_defs)
  note T = get_config_numeric_defaults [OF a b]
  from T [of unreadable_config] n
  have u: "get_config_reply sample_rt unreadable_config
       = (500, JObj [(''message'',
                      JStr ''Error parsing stored line configuration from MQTT.'')])"
    by blast
  from T [of defaulted_config] r obtain body where
    "get_config_reply sample_rt defaulted_config = (200, JObj body)" by blast
  with r g n u show ?thesis by (intro conjI)
qed

text \<open>
  Claim C5 as the specification words it, "always returned", does not hold in two
  cases. With \<open>totalLaps\<close> stored as 3 and a start line payload that is not JSON, the
  answer is the 500 and carries no \<open>totalLaps\<close>. With \<open>idealTime\<close> stored as
  \<open>Infinity\<close>, which \<open>parseFloat\<close> reads as a number that is not NaN, the body carries
  \<open>idealTime: null\<close>, neither the stored number nor the default 60.
\<close>

theorem stored_values_not_returned:
  "unreadable_config MQTT_TOPIC_CONFIG_TOTAL_LAPS = Some ''3''
   \<and> parseInt10 sample_rt ''3'' = Fin 3
   \<and> get_config_reply sample_rt unreadable_config
       = (500, JObj [(''message'',
                      JStr ''Error parsing stored line configuration from MQTT.'')])
   \<and> infinite_ideal_config MQTT_TOPIC_IDEAL_TIME = Some ''Infinity''
   \<and> parseFloat sample_rt ''Infinity'' = PosInf
   \<and> get_config_reply sample_rt infinite_ideal_config
       = (200, JObj [(''start'', JNull), (''finish'', JNull), (''lap'', JNull),
                     (''totalLaps'', JNum (Fin 0)), (''idealTime'', JNull)])"
  by (simp add: get_config_reply_def unreadable_config_def infinite_ideal_config_def get_defs
      sample_defs parse_error_def response_body_def)

lemma finite_point_iff: "finite_point p \<longleftrightarrow> (\<exists>a b. p = JArr [JNum (Fin a), JNum (Fin b)])"
  by (induction p rule: finite_point.induct) auto

lemma finite_line_iff:
  "finite_line l \<longleftrightarrow> (\<exists>p q. l = JArr [p, q] \<and> finite_point p \<and> finite_point q)"
  by (induction l rule: finite_line.induct) auto

lemma line_object_swapped: "is_line l \<Longrightarrow> line_object l = Some (swapped_object l)"
  by (auto simp: is_line_iff is_point_iff line_object_def)

lemma read_line_round_trip:
  assumes f: "finite_line l" and c: "json_codec rt (swapped_object l)"
  shows "read_line rt (Some (JSON_stringify rt (swapped_object l))) = Some l"
proof -
  from f obtain a b c d where
    l: "l = JArr [JArr [JNum (Fin a), JNum (Fin b)], JArr [JNum (Fin c), JNum (Fin d)]]"
    by (auto simp: finite_line_iff finite_point_iff)
  let ?obj = "JObj [(''p1'', JArr [JNum (Fin b), JNum (Fin a)]),
                    (''p2'', JArr [JNum (Fin d), JNum (Fin c)])]"
  have so: "swapped_object l = ?obj" by (simp add: l)
  from c have ne: "JSON_stringify rt ?obj \<noteq> []"
    and p: "JSON_parse rt (JSON_stringify rt ?obj) = Some ?obj"
    by (simp_all add: json_codec_def so)
  show ?thesis unfolding so by (simp add: read_line_def ne p own_prop_def l)
qed

lemma deliver_five:
  "deliver [publish MQTT_TOPIC_CONFIG_START x0, publish MQTT_TOPIC_CONFIG_FINISH x1,
      publish MQTT_TOPIC_CONFIG_LAP x2, publish MQTT_TOPIC_CONFIG_TOTAL_LAPS x3,
      publish MQTT_TOPIC_IDEAL_TIME x4] cfg
   = cfg(MQTT_TOPIC_CONFIG_START := Some x0, MQTT_TOPIC_CONFIG_FINISH := Some x1,
      MQTT_TOPIC_CONFIG_LAP := Some x2, MQTT_TOPIC_CONFIG_TOTAL_LAPS := Some x3,
      MQTT_TOPIC_IDEAL_TIME := Some x4)"
  by (simp add: deliver_def on_message_def configTopics_def publish_def)

text \<open>
  Claim C6, as the code has it. For every valid request whose three lines have finite
  coordinates: the payload published on the topic of each line is the text of
  \<open>{p1: [lon, lat], p2: [lon, lat]}\<close>, and once the five publishes are stored,
  \<open>GET /api/get-config\<close> returns exactly the three lines of the request. The runtime
  law used: the text that \<open>JSON.stringify\<close> gives for the object of a line is not
  empty and \<open>JSON.parse\<close> reads it back.
\<close>

theorem line_round_trip:
  assumes v: "validate b = None"
    and f: "finite_line (own_prop b ''start'')" "finite_line (own_prop b ''finish'')"
      "finite_line (own_prop b ''lap'')"
    and c: "json_codec rt (swapped_object (own_prop b ''start''))"
      "json_codec rt (swapped_object (own_prop b ''finish''))"
      "json_codec rt (swapped_object (own_prop b ''lap''))"
  shows "\<exists>ps. set_lines rt True b = Publishing ps
           \<and> map p_topic (take 3 ps)
               = [MQTT_TOPIC_CONFIG_START, MQTT_TOPIC_CONFIG_FINISH, MQTT_TOPIC_CONFIG_LAP]
           \<and> map p_payload (take 3 ps)
               = [JSON_stringify rt (swapped_object (own_prop b ''start'')),
                  JSON_stringify rt (swapped_object (own_prop b ''finish'')),
                  JSON_stringify rt (swapped_object (own_prop b ''lap''))]
           \<and> (\<exists>r. get_config rt (deliver ps cfg) = Inr r
                  \<and> r_start r = own_prop b ''start''
                  \<and> r_finish r = own_prop b ''finish''
                  \<and> r_lap r = own_prop b ''lap'')"
proof -
  let ?s = "swapped_object (own_prop b ''start'')"
  let ?f = "swapped_object (own_prop b ''finish'')"
  let ?l = "swapped_object (own_prop b ''lap'')"
  let ?ps = "[publish MQTT_TOPIC_CONFIG_START (JSON_stringify rt ?s),
              publish MQTT_TOPIC_CONFIG_FINISH (JSON_stringify rt ?f),
              publish MQTT_TOPIC_CONFIG_LAP (JSON_stringify rt ?l),
              publish MQTT_TOPIC_CONFIG_TOTAL_LAPS (String_of rt (own_prop b ''totalLaps'')),
              publish MQTT_TOPIC_IDEAL_TIME (String_of rt (own_prop b ''idealTime''))]"
  from validate_lines [OF v] have
    "line_object (own_prop b ''start'') = Some ?s" "line_object (own_prop b ''finish'') = Some ?f"
    "line_object (own_prop b ''lap'') = Some ?l"
    by (simp_all add: line_object_swapped)
  with v have ps: "set_lines rt True b = Publishing ?ps" by (simp add: set_lines_def)
  have g: "get_config rt (deliver ?ps cfg)
      = Inr \<lparr>r_start = own_prop b ''start'', r_finish = own_prop b ''finish'',
             r_lap = own_prop b ''lap'',
             r_totalLaps = read_total_laps rt (Some (String_of rt (own_prop b ''totalLaps''))),
             r_idealTime = read_ideal_time rt (Some (String_of rt (own_prop b ''idealTime'')))\<rparr>"
    unfolding deliver_five get_config_def
    by (simp add: topic_defs read_line_round_trip [OF f(1) c(1)]
        read_line_round_trip [OF f(2) c(2)] read_line_round_trip [OF f(3) c(3)])
  have t: "map p_topic (take 3 ?ps)
      = [MQTT_TOPIC_CONFIG_START, MQTT_TOPIC_CONFIG_FINISH, MQTT_TOPIC_CONFIG_LAP]"
    and pl: "map p_payload (take 3 ?ps) = [JSON_stringify rt ?s, JSON_stringify rt ?f,
      JSON_stringify rt ?l]"
    by (simp_all add: publish_def)
  from g have r: "\<exists>r. get_config rt (deliver ?ps cfg) = Inr r
                  \<and> r_start r = own_prop b ''start''
                  \<and> r_finish r = own_prop b ''finish''
                  \<and> r_lap r = own_prop b ''lap''" by simp
  from ps t pl r show ?thesis by (intro exI [of _ ?ps] conjI)
qed

theorem line_round_trip_witness:
  "validate sample_body = None
   \<and> set_lines sample_rt True sample_body = Publishing sample_publishes
   \<and> get_config sample_rt (deliver sample_publishes initialConfig)
       = Inr \<lparr>r_start = sample_start, r_finish = sample_start, r_lap = sample_lap,
              r_totalLaps = Fin 3, r_idealTime = Fin 58.7\<rparr>"
proof -
  have f: "finite_line (own_prop sample_body ''start'')"
    "finite_line (own_prop sample_body ''finish'')" "finite_line (own_prop sample_body ''lap'')"
    by (simp_all add: sample_defs own_prop_def)
  have c: "json_codec sample_rt (swapped_object (own_prop sample_body ''start''))"
    "json_codec sample_rt (swapped_object (own_prop sample_body ''finish''))"
    "json_codec sample_rt (swapped_object (own_prop sample_body ''lap''))"
    by (simp_all add: json_codec_def sample_defs own_prop_def)
  from line_round_trip [OF sample_body_valid f c, of initialConfig]
  obtain ps r where o: "set_lines sample_rt True sample_body = Publishing ps"
    "get_config sample_rt (deliver ps initialConfig) = Inr r"
    "r_start r = own_prop sample_body ''start''" by blast
  have "get_config sample_rt (deliver sample_publishes initialConfig)
       = Inr \<lparr>r_start = sample_start, r_finish = sample_start, r_lap = sample_lap,
              r_totalLaps = Fin 3, r_idealTime = Fin 58.7\<rparr>"
    unfolding sample_publishes_def deliver_five
    by (simp add: get_defs sample_defs)
  with sample_body_valid sample_set_lines o show ?thesis by simp
qed

text \<open>
  Claim C6 as stated holds for every line of two \<open>[number, number]\<close> points. The
  request below has the latitude \<open>Infinity\<close> (the number \<open>1e999\<close> of a JSON body): it
  passes validation, \<open>JSON.stringify\<close> writes \<open>null\<close> for it, and the line that
  \<open>GET /api/get-config\<close> returns has \<open>null\<close> in its place.
\<close>

theorem infinite_coordinate_is_lost:
  "validate overflow_body = None
   \<and> is_line (own_prop overflow_body ''start'')
   \<and> json_codec sample_rt (swapped_object (own_prop overflow_body ''start''))
   \<and> set_lines sample_rt True overflow_body = Publishing overflow_publishes
   \<and> get_config sample_rt (deliver overflow_publishes initialConfig)
       = Inr \<lparr>r_start = JArr [JArr [JNull, JNum (Fin 6.1)],
                               JArr [JNum (Fin 49.601), JNum (Fin 6.1)]],
              r_finish = sample_start, r_lap = sample_lap,
              r_totalLaps = Fin 3, r_idealTime = Fin 58.7\<rparr>
   \<and> own_prop overflow_body ''start''
       = JArr [JArr [JNum PosInf, JNum (Fin 6.1)], JArr [JNum (Fin 49.601), JNum (Fin 6.1)]]"
proof -
  have v: "validate overflow_body = None"
    by (simp add: validate_def sample_defs own_prop_def isValidPoint_def elem_def)
  have s: "set_lines sample_rt True overflow_body = Publishing overflow_publishes"
    by (simp add: set_lines_def v) (simp add: sample_defs own_prop_def line_object_def
        overflow_publishes_def)
  have g: "get_config sample_rt (deliver overflow_publishes initialConfig)
       = Inr \<lparr>r_start = JArr [JArr [JNull, JNum (Fin 6.1)],
                               JArr [JNum (Fin 49.601), JNum (Fin 6.1)]],
              r_finish = sample_start, r_lap = sample_lap,
              r_totalLaps = Fin 3, r_idealTime = Fin 58.7\<rparr>"
    unfolding overflow_publishes_def deliver_five
    by (simp add: get_defs sample_defs)
  have c: "json_codec sample_rt (swapped_object (own_prop overflow_body ''start''))"
    by (simp add: json_codec_def sample_defs own_prop_def)
  have l: "is_line (own_prop overflow_body ''start'')"
    by (simp add: sample_defs own_prop_def)
  have o: "own_prop overflow_body ''start''
       = JArr [JArr [JNum PosInf, JNum (Fin 6.1)], JArr [JNum (Fin 49.601), JNum (Fin 6.1)]]"
    by (simp add: sample_defs own_prop_def)
  from v s g c l o show ?thesis by (intro conjI)
qed

section \<open>The relay of status messages\<close>

lemma digit_in: "d < 10 \<Longrightarrow> digit d \<in> set ''0123456789''"
  unfolding digit_def by (rule nth_mem) simp

lemma dec_digits: "set (dec n) \<subseteq> set ''0123456789''"
proof (induction n rule: dec.induct)
  case (1 n)
  show ?case
  proof (cases "n < 10")
    case True
    then show ?thesis using digit_in [of n] by (subst dec.simps) simp
  next
    case False
    have "n mod 10 < 10" by simp
    from digit_in [OF this] 1 [OF False] False show ?thesis by (subst dec.simps) simp
  qed
qed

lemma required_key_underscore: "k \<in> set requiredKeys \<Longrightarrow> CHR ''_'' \<in> set k"
  by (auto simp: requiredKeys_def)

lemma required_key_no_index: "k \<in> set requiredKeys \<Longrightarrow> k \<noteq> dec n"
proof
  assume k: "k \<in> set requiredKeys" and "k = dec n"
  with required_key_underscore [OF k] have "CHR ''_'' \<in> set (dec n)" by simp
  with dec_digits [of n] show False by auto
qed

lemma required_key_not_length: "k \<in> set requiredKeys \<Longrightarrow> k \<noteq> ''length''"
  by (auto simp: requiredKeys_def)

lemma js_in_missing:
  assumes k: "k \<in> set requiredKeys" and h: "\<not> has_own_key v k"
  shows "js_in k v \<noteq> Some True"
proof (cases v)
  case (JObj kvs)
  with h show ?thesis by simp
next
  case (JArr xs)
  from required_key_no_index [OF k] have "k \<notin> set (map dec [0..<length xs])" by auto
  with required_key_not_length [OF k] JArr show ?thesis by simp
qed simp_all

lemma every_in_missing:
  "k \<in> set keys \<Longrightarrow> js_in k v \<noteq> Some True \<Longrightarrow> every_in keys v \<noteq> Some True"
proof (induction keys)
  case Nil
  then show ?case by simp
next
  case (Cons key keys)
  show ?case
  proof (cases "js_in key v")
    case None
    then show ?thesis by simp
  next
    case (Some present)
    show ?thesis
    proof (cases present)
      case True
      with Some Cons.prems have "k \<in> set keys" by auto
      with Cons.IH Cons.prems(2) have "every_in keys v \<noteq> Some True" by simp
      with Some True show ?thesis by simp
    next
      case False
      with Some show ?thesis by simp
    qed
  qed
qed

lemma gps_not_every:
  "parse msg = Some v \<Longrightarrow> every_in requiredKeys v \<noteq> Some True \<Longrightarrow>
   display_on_message parse MQTT_TOPIC_GPS msg st = st"
  by (cases "every_in requiredKeys v")
     (auto simp: display_on_message_def split: bool.splits)

lemma complete_status_updates:
  \<open>display_on_message status_parse MQTT_TOPIC_GPS
     ''{"current_lap":2,"total_laps":5,"last_lap_time_seconds":61.5,"race_finished":false,"current_lap_elapsed_seconds":3}''
     initial_relay
   = initial_relay\<lparr>
       raceData := [(''current_lap'', JNum (Fin 2)), (''total_laps'', JNum (Fin 5)),
               (''last_lap_time_seconds'', JNum (Fin 61.5)), (''race_finished'', JBool False),
               (''current_lap_elapsed_seconds'', JNum (Fin 3))],
       emitted := [(''race_update'',
              [(''current_lap'', JNum (Fin 2)), (''total_laps'', JNum (Fin 5)),
               (''last_lap_time_seconds'', JNum (Fin 61.5)), (''race_finished'', JBool False),
               (''current_lap_elapsed_seconds'', JNum (Fin 3))])]\<rparr>\<close>
  by (simp add: display_on_message_def status_parse_def requiredKeys_def MQTT_TOPIC_GPS_def
      spread_def initial_relay_def Let_def set_prop_def array_index_def digit_value_def)

text \<open>
  Claim C9. A message on \<open>gps/status\<close> whose payload is not valid JSON, or is JSON that
  lacks one of the five required keys (an object without it, or a value that is no
  object), leaves the whole state of the relay as it was: \<open>raceData\<close> is unchanged and
  nothing is emitted. The handler catches whatever is thrown, so it returns a state for
  every message.
\<close>

theorem incomplete_status_ignored:
  assumes "parse msg = None
           \<or> (\<exists>v k. parse msg = Some v \<and> k \<in> set requiredKeys \<and> \<not> has_own_key v k)"
  shows "display_on_message parse MQTT_TOPIC_GPS msg st = st"
  using assms
proof (elim disjE exE conjE)
  assume "parse msg = None"
  then show ?thesis by (simp add: display_on_message_def)
next
  fix v k
  assume p: "parse msg = Some v" and k: "k \<in> set requiredKeys" and h: "\<not> has_own_key v k"
  have e: "every_in requiredKeys v \<noteq> Some True"
    by (rule every_in_missing [OF k js_in_missing [OF k h]])
  show ?thesis by (rule gps_not_every [of parse msg v, OF p e])
qed

theorem incomplete_status_ignored_witness:
  \<open>display_on_message status_parse MQTT_TOPIC_GPS ''not json'' initial_relay = initial_relay
   \<and> display_on_message status_parse MQTT_TOPIC_GPS ''{"current_lap":2,"total_laps":5}''
        initial_relay = initial_relay
   \<and> display_on_message status_parse MQTT_TOPIC_GPS ''7'' initial_relay = initial_relay
   \<and> display_on_message status_parse MQTT_TOPIC_GPS ''[1,2]'' initial_relay = initial_relay\<close>
proof -
  have a: "status_parse ''not json'' = None" by (simp add: status_parse_def)
  have b: \<open>status_parse ''{"current_lap":2,"total_laps":5}''
      = Some (JObj [(''current_lap'', JNum (Fin 2)), (''total_laps'', JNum (Fin 5))])\<close>
    by (simp add: status_parse_def)
  have c: "status_parse ''7'' = Some (JNum (Fin 7))" by (simp add: status_parse_def)
  have d: "status_parse ''[1,2]'' = Some (JArr [JNum (Fin 1), JNum (Fin 2)])"
    by (simp add: status_parse_def)
  have k: "''race_finished'' \<in> set requiredKeys" by (simp add: requiredKeys_def)
  have "display_on_message status_parse MQTT_TOPIC_GPS ''not json'' initial_relay
      = initial_relay"
    by (rule incomplete_status_ignored) (simp add: a)
  moreover have \<open>display_on_message status_parse MQTT_TOPIC_GPS
      ''{"current_lap":2,"total_laps":5}'' initial_relay = initial_relay\<close>
    by (rule incomplete_status_ignored) (use b k in auto)
  moreover have "display_on_message status_parse MQTT_TOPIC_GPS ''7'' initial_relay
      = initial_relay"
    by (rule incomplete_status_ignored) (use c k in auto)
  moreover have "display_on_message status_parse MQTT_TOPIC_GPS ''[1,2]'' initial_relay
      = initial_relay"
    by (rule incomplete_status_ignored) (use d k in auto)
  ultimately show ?thesis by (intro conjI)
qed

section \<open>The time format of the dashboard\<close>

lemma digit_0: "digit 0 = CHR ''0''" by (simp add: digit_def)

lemma dec_small: "n < 10 \<Longrightarrow> dec n = [digit n]"
  by (subst dec.simps) simp

lemma dec_two: "10 \<le> n \<Longrightarrow> n < 100 \<Longrightarrow> dec n = [digit (n div 10), digit (n mod 10)]"
proof -
  assume a: "10 \<le> n" and b: "n < 100"
  then have "n div 10 < 10" by simp
  from dec_small [OF this] a show ?thesis by (subst dec.simps) simp
qed

lemma pad_two_digits: "n < 100 \<Longrightarrow> padStart2 (dec n) = [digit (n div 10), digit (n mod 10)]"
proof (cases "n < 10")
  case True
  then show ?thesis by (simp add: dec_small padStart2_def digit_0)
next
  case False
  assume "n < 100"
  with False show ?thesis by (simp add: dec_two padStart2_def)
qed

lemma pad_length: "2 \<le> length (padStart2 s)"
  by (simp add: padStart2_def)

lemma number_text_nat: "n < 2 ^ 53 \<Longrightarrow> number_text other (Fin (of_nat n)) = dec n"
proof -
  assume "n < 2 ^ 53"
  then have "(of_nat n :: rat) < of_nat (2 ^ 53)" by (simp only: of_nat_less_iff)
  then show ?thesis by simp
qed

lemma split_seconds:
  fixes q :: rat
  assumes "0 \<le> q"
  defines "m0 \<equiv> \<lfloor>q / 60\<rfloor>"
  defines "s0 \<equiv> \<lfloor>q - 60 * of_int m0 + 1 / 2\<rfloor>"
  shows "0 \<le> m0" and "0 \<le> s0" and "s0 \<le> 60" and "\<lfloor>q + 1 / 2\<rfloor> = 60 * m0 + s0"
proof -
  have lo: "of_int m0 \<le> q / 60" unfolding m0_def by (rule of_int_floor_le)
  have hi: "q / 60 < of_int m0 + 1" unfolding m0_def using floor_correct [of "q / 60"] by simp
  from lo have r0: "0 \<le> q - 60 * of_int m0" by (simp add: field_simps)
  from hi have r1: "q - 60 * of_int m0 < 60" by (simp add: field_simps)
  show "0 \<le> m0" unfolding m0_def using assms(1) by simp
  from r0 have "0 \<le> q - 60 * of_int m0 + 1 / 2" by simp
  then show "0 \<le> s0" unfolding s0_def by simp
  from r1 have "q - 60 * of_int m0 + 1 / 2 < of_int 60 + 1" by simp
  then have "s0 < 60 + 1" unfolding s0_def by (simp only: floor_less_iff of_int_add of_int_1)
  then show "s0 \<le> 60" by simp
  have "q + 1 / 2 = (q - 60 * of_int m0 + 1 / 2) + of_int (60 * m0)" by simp
  then have "\<lfloor>q + 1 / 2\<rfloor> = \<lfloor>(q - 60 * of_int m0 + 1 / 2) + of_int (60 * m0)\<rfloor>" by simp
  also have "\<dots> = s0 + 60 * m0" unfolding s0_def by (rule floor_add_int [symmetric])
  finally show "\<lfloor>q + 1 / 2\<rfloor> = 60 * m0 + s0" by simp
qed

lemma formatTimeJS_bad:
  assumes "seconds = JNull \<or> seconds = JUndefined \<or> pf seconds = None
           \<or> pf seconds = Some NaN \<or> (\<exists>n. pf seconds = Some n \<and> lt_zero n)"
  shows "formatTimeJS fl pf other seconds = ''00:00''"
  using assms by (auto simp: formatTimeJS_def)

lemma formatTimeJS_unfolded:
  assumes "seconds \<noteq> JNull" "seconds \<noteq> JUndefined" and "pf seconds = Some (Fin q)"
    and "0 \<le> q"
  shows "formatTimeJS fl pf other seconds
      = (if \<lfloor>q - 60 * of_int \<lfloor>q / 60\<rfloor> + 1 / 2\<rfloor> = 60
         then padStart2 (number_text other (Fin (fl (of_int \<lfloor>fl (q / 60)\<rfloor> + 1)))) @ '':''
              @ padStart2 (number_text other (Fin 0))
         else padStart2 (number_text other (Fin (of_int \<lfloor>fl (q / 60)\<rfloor>))) @ '':''
              @ padStart2 (number_text other
                  (Fin (of_int \<lfloor>q - 60 * of_int \<lfloor>q / 60\<rfloor> + 1 / 2\<rfloor>))))"
  using assms by (simp add: formatTimeJS_def Let_def del: number_text.simps)

lemma formatTimeJS_good:
  assumes ok: "seconds \<noteq> JNull" "seconds \<noteq> JUndefined" and pf: "pf seconds = Some (Fin q)"
    and q: "0 \<le> q"
  defines "tsec \<equiv> nat \<lfloor>q + 1 / 2\<rfloor>"
  shows "formatTimeJS fl pf other seconds
           = padStart2 (number_text other
               (Fin (if tsec div 60 = nat \<lfloor>q / 60\<rfloor> then of_int \<lfloor>fl (q / 60)\<rfloor>
                     else fl (of_int \<lfloor>fl (q / 60)\<rfloor> + 1)))) @ '':''
             @ [digit (tsec mod 60 div 10), digit (tsec mod 60 mod 10)]"
proof -
  define m0 where "m0 = \<lfloor>q / 60\<rfloor>"
  define s0 where "s0 = \<lfloor>q - 60 * of_int m0 + 1 / 2\<rfloor>"
  define a where "a = (of_int \<lfloor>fl (q / 60)\<rfloor> :: rat)"
  define b where "b = fl (of_int \<lfloor>fl (q / 60)\<rfloor> + 1)"
  note S = split_seconds [OF q, folded m0_def, folded s0_def]
  note f = formatTimeJS_unfolded [where pf = pf and seconds = seconds and q = q
      and other = other and fl = fl, OF ok pf q, folded b_def, folded a_def,
      folded m0_def, folded s0_def]
  have t: "tsec = nat (60 * m0 + s0)" by (simp only: tsec_def S(4))
  have "formatTimeJS fl pf other seconds
        = padStart2 (number_text other (Fin (if tsec div 60 = nat m0 then a else b)))
             @ '':'' @ [digit (tsec mod 60 div 10), digit (tsec mod 60 mod 10)]"
  proof (cases "s0 = 60")
    case True
    have d: "tsec div 60 = nat m0 + 1" and m: "tsec mod 60 = 0"
      unfolding t True using S(1) by (simp_all add: nat_add_distrib nat_mult_distrib)
    have ne: "tsec div 60 \<noteq> nat m0" unfolding d by simp
    have z: "padStart2 (number_text other (Fin 0)) = [digit 0, digit 0]"
      using pad_two_digits [of 0] by simp
    have "formatTimeJS fl pf other seconds
        = padStart2 (number_text other (Fin b)) @ '':''
          @ padStart2 (number_text other (Fin 0))"
      unfolding f using True by (simp only: if_True simp_thms)
    also have "\<dots> = padStart2 (number_text other (Fin b)) @ '':''
          @ [digit 0, digit 0]" by (simp only: z)
    also have "\<dots> = padStart2 (number_text other (Fin (if tsec div 60 = nat m0 then a else b)))
             @ '':'' @ [digit (tsec mod 60 div 10), digit (tsec mod 60 mod 10)]"
      using ne by (simp only: m div_0 mod_0 if_False)
    finally show ?thesis .
  next
    case False
    have lt: "s0 < 60" by (rule le_neq_trans [OF S(3) False])
    have "60 * m0 + s0 = s0 + m0 * 60" by simp
    then have t': "tsec = nat (s0 + m0 * 60)" by (simp only: t)
    have ltn: "nat s0 < 60" using lt by simp
    have "nat (s0 + m0 * 60) = nat s0 + nat m0 * 60"
      using S(1,2) by (simp add: nat_add_distrib nat_mult_distrib)
    then have t'': "tsec = nat s0 + nat m0 * 60" by (simp only: t')
    have d: "tsec div 60 = nat m0" and m: "tsec mod 60 = nat s0"
      unfolding t'' using ltn by simp_all
    have b': "(of_int s0 :: rat) = of_nat (nat s0)" using S(2) by simp
    have small: "nat s0 < 2 ^ 53" and small': "nat s0 < 100" using lt by simp_all
    have nt: "number_text other (Fin (of_nat (nat s0))) = dec (nat s0)"
      by (rule number_text_nat [OF small])
    have pad: "padStart2 (dec (nat s0)) = [digit (nat s0 div 10), digit (nat s0 mod 10)]"
      by (rule pad_two_digits [OF small'])
    have "formatTimeJS fl pf other seconds
        = padStart2 (number_text other (Fin a)) @ '':''
          @ padStart2 (number_text other (Fin (of_int s0)))"
      unfolding f using False by (simp only: if_False simp_thms)
    also have "\<dots> = padStart2 (number_text other (Fin a)) @ '':''
          @ padStart2 (number_text other (Fin (of_nat (nat s0))))" by (simp only: b')
    also have "\<dots> = padStart2 (number_text other (Fin a)) @ '':''
          @ [digit (nat s0 div 10), digit (nat s0 mod 10)]" by (simp only: nt pad)
    also have "\<dots> = padStart2 (number_text other (Fin (if tsec div 60 = nat m0 then a else b)))
             @ '':'' @ [digit (tsec mod 60 div 10), digit (tsec mod 60 mod 10)]"
      by (simp only: d m if_True simp_thms)
    finally show ?thesis .
  qed
  then show ?thesis unfolding a_def b_def m0_def .
qed

lemma minutes_text:
  assumes q: "0 \<le> q" and e: "minutes_exact fl q"
  defines "tsec \<equiv> nat \<lfloor>q + 1 / 2\<rfloor>"
  shows "number_text other
           (Fin (if tsec div 60 = nat \<lfloor>q / 60\<rfloor> then of_int \<lfloor>fl (q / 60)\<rfloor>
                 else fl (of_int \<lfloor>fl (q / 60)\<rfloor> + 1)))
         = dec (tsec div 60)"
proof -
  define m0 where "m0 = \<lfloor>q / 60\<rfloor>"
  define s0 where "s0 = \<lfloor>q - 60 * of_int m0 + 1 / 2\<rfloor>"
  note S = split_seconds [OF q, folded m0_def, folded s0_def]
  from e have e1: "\<lfloor>fl (q / 60)\<rfloor> = m0" and e2: "m0 + 1 < 2 ^ 53"
    and e3: "fl (of_int m0 + 1) = of_int m0 + 1"
    by (simp_all add: minutes_exact_def m0_def)
  have t: "tsec = nat s0 + nat m0 * 60"
    unfolding tsec_def S(4) using S(1,2) by (simp add: nat_add_distrib nat_mult_distrib)
  have b1: "nat m0 < 2 ^ 53" and b2: "nat m0 + 1 < 2 ^ 53" using e2 S(1) by simp_all
  show ?thesis unfolding m0_def [symmetric] e1 e3
  proof (cases "s0 = 60")
    case True
    have d: "tsec div 60 = nat m0 + 1" unfolding t True by simp
    have c: "(of_int m0 + 1 :: rat) = of_nat (nat m0 + 1)" using S(1) by simp
    have "number_text other (Fin (of_int m0 + 1)) = dec (nat m0 + 1)"
      unfolding c by (rule number_text_nat [OF b2])
    then show "number_text other
           (Fin (if tsec div 60 = nat m0 then of_int m0 else of_int m0 + 1))
         = dec (tsec div 60)" unfolding d by simp
  next
    case False
    have lt: "nat s0 < 60" using le_neq_trans [OF S(3) False] by simp
    have d: "tsec div 60 = nat m0" unfolding t using lt by simp
    have c: "(of_int m0 :: rat) = of_nat (nat m0)" using S(1) by simp
    have "number_text other (Fin (of_int m0)) = dec (nat m0)"
      unfolding c by (rule number_text_nat [OF b1])
    then show "number_text other
           (Fin (if tsec div 60 = nat m0 then of_int m0 else of_int m0 + 1))
         = dec (tsec div 60)" unfolding d by simp
  qed
qed

text \<open>
  Claim C10, as the code has it. \<open>formatTimeJS\<close> returns a string for every input. It
  returns \<open>00:00\<close> for \<open>null\<close>, for \<open>undefined\<close>, for an input whose conversion throws
  or that \<open>parseFloat\<close> reads as NaN, and for a negative number. For a finite number of
  seconds \<open>q \<ge> 0\<close>, whatever the rounding of the doubles, it returns the text of the
  minutes (the floor of the rounded quotient, plus one, rounded, when the seconds round
  to 60) padded to at least two characters, a colon, and the seconds of \<open>q\<close> rounded to
  the nearest second (a half rounds up) as exactly two digits, at most 59. When the
  double arithmetic of the minutes is exact at \<open>q\<close> (\<open>minutes_exact\<close>, which bounds the
  minutes below \<open>2^53\<close>), the minutes field is the decimal digits of the minutes of
  the rounded time, and below 100 minutes the result is exactly two digits, a colon and
  two digits.
\<close>

theorem formatTimeJS_clamps_and_pads:
  "(seconds = JNull \<or> seconds = JUndefined \<or> pf seconds = None
      \<or> pf seconds = Some NaN \<or> (\<exists>n. pf seconds = Some n \<and> lt_zero n)
     \<longrightarrow> formatTimeJS fl pf other seconds = ''00:00'')
   \<and> (seconds \<noteq> JNull \<and> seconds \<noteq> JUndefined \<and> pf seconds = Some (Fin q) \<and> 0 \<le> q
     \<longrightarrow> formatTimeJS fl pf other seconds
           = padStart2 (number_text other
               (Fin (if nat \<lfloor>q + 1 / 2\<rfloor> div 60 = nat \<lfloor>q / 60\<rfloor> then of_int \<lfloor>fl (q / 60)\<rfloor>
                     else fl (of_int \<lfloor>fl (q / 60)\<rfloor> + 1)))) @ '':''
             @ [digit (nat \<lfloor>q + 1 / 2\<rfloor> mod 60 div 10), digit (nat \<lfloor>q + 1 / 2\<rfloor> mod 60 mod 10)]
         \<and> nat \<lfloor>q + 1 / 2\<rfloor> mod 60 \<le> 59
         \<and> (minutes_exact fl q \<longrightarrow>
              formatTimeJS fl pf other seconds
                = padStart2 (dec (nat \<lfloor>q + 1 / 2\<rfloor> div 60)) @ '':''
                  @ [digit (nat \<lfloor>q + 1 / 2\<rfloor> mod 60 div 10),
                     digit (nat \<lfloor>q + 1 / 2\<rfloor> mod 60 mod 10)]
              \<and> 2 \<le> length (padStart2 (dec (nat \<lfloor>q + 1 / 2\<rfloor> div 60)))
              \<and> (nat \<lfloor>q + 1 / 2\<rfloor> div 60 < 100 \<longrightarrow>
                   formatTimeJS fl pf other seconds
                     = [digit (nat \<lfloor>q + 1 / 2\<rfloor> div 60 div 10),
                        digit (nat \<lfloor>q + 1 / 2\<rfloor> div 60 mod 10)] @ '':''
                       @ [digit (nat \<lfloor>q + 1 / 2\<rfloor> mod 60 div 10),
                          digit (nat \<lfloor>q + 1 / 2\<rfloor> mod 60 mod 10)])))"
proof (intro conjI impI)
  assume "seconds = JNull \<or> seconds = JUndefined \<or> pf seconds = None
      \<or> pf seconds = Some NaN \<or> (\<exists>n. pf seconds = Some n \<and> lt_zero n)"
  then show "formatTimeJS fl pf other seconds = ''00:00''" by (rule formatTimeJS_bad)
next
  assume a: "seconds \<noteq> JNull \<and> seconds \<noteq> JUndefined \<and> pf seconds = Some (Fin q) \<and> 0 \<le> q"
  then show "formatTimeJS fl pf other seconds
           = padStart2 (number_text other
               (Fin (if nat \<lfloor>q + 1 / 2\<rfloor> div 60 = nat \<lfloor>q / 60\<rfloor> then of_int \<lfloor>fl (q / 60)\<rfloor>
                     else fl (of_int \<lfloor>fl (q / 60)\<rfloor> + 1)))) @ '':''
             @ [digit (nat \<lfloor>q + 1 / 2\<rfloor> mod 60 div 10), digit (nat \<lfloor>q + 1 / 2\<rfloor> mod 60 mod 10)]"
    by (intro formatTimeJS_good) simp_all
next
  show "nat \<lfloor>q + 1 / 2\<rfloor> mod 60 \<le> 59"
  proof -
    have "nat \<lfloor>q + 1 / 2\<rfloor> mod 60 < 60" by simp
    then show ?thesis by linarith
  qed
next
  assume a: "seconds \<noteq> JNull \<and> seconds \<noteq> JUndefined \<and> pf seconds = Some (Fin q) \<and> 0 \<le> q"
    and e: "minutes_exact fl q"
  from a have q: "0 \<le> q" by simp
  from a have g: "formatTimeJS fl pf other seconds
           = padStart2 (number_text other
               (Fin (if nat \<lfloor>q + 1 / 2\<rfloor> div 60 = nat \<lfloor>q / 60\<rfloor> then of_int \<lfloor>fl (q / 60)\<rfloor>
                     else fl (of_int \<lfloor>fl (q / 60)\<rfloor> + 1)))) @ '':''
             @ [digit (nat \<lfloor>q + 1 / 2\<rfloor> mod 60 div 10), digit (nat \<lfloor>q + 1 / 2\<rfloor> mod 60 mod 10)]"
    by (intro formatTimeJS_good) simp_all
  show x: "formatTimeJS fl pf other seconds
                = padStart2 (dec (nat \<lfloor>q + 1 / 2\<rfloor> div 60)) @ '':''
                  @ [digit (nat \<lfloor>q + 1 / 2\<rfloor> mod 60 div 10),
                     digit (nat \<lfloor>q + 1 / 2\<rfloor> mod 60 mod 10)]"
    unfolding g by (simp only: minutes_text [OF q e])
  assume "nat \<lfloor>q + 1 / 2\<rfloor> div 60 < 100"
  from pad_two_digits [OF this]
  show "formatTimeJS fl pf other seconds
                     = [digit (nat \<lfloor>q + 1 / 2\<rfloor> div 60 div 10),
                        digit (nat \<lfloor>q + 1 / 2\<rfloor> div 60 mod 10)] @ '':''
                       @ [digit (nat \<lfloor>q + 1 / 2\<rfloor> mod 60 div 10),
                          digit (nat \<lfloor>q + 1 / 2\<rfloor> mod 60 mod 10)]"
    unfolding x by (simp only:)
next
  show "2 \<le> length (padStart2 (dec (nat \<lfloor>q + 1 / 2\<rfloor> div 60)))" by (rule pad_length)
qed

lemma floor_sample:
  "\<lfloor>119.5 + 1 / 2 :: rat\<rfloor> = 120" "\<lfloor>119.5 / 60 :: rat\<rfloor> = 1"
  "\<lfloor>12.5 + 1 / 2 :: rat\<rfloor> = 13" "\<lfloor>12.5 / 60 :: rat\<rfloor> = 0"
proof -
  have "(119.5 + 1 / 2 :: rat) = of_int 120" by simp
  then show "\<lfloor>119.5 + 1 / 2 :: rat\<rfloor> = 120" by (simp only: floor_of_int)
  have "(12.5 + 1 / 2 :: rat) = of_int 13" by simp
  then show "\<lfloor>12.5 + 1 / 2 :: rat\<rfloor> = 13" by (simp only: floor_of_int)
  show "\<lfloor>119.5 / 60 :: rat\<rfloor> = 1" by (rule floor_unique) simp_all
  show "\<lfloor>12.5 / 60 :: rat\<rfloor> = 0" by (rule floor_unique) simp_all
qed

theorem formatTimeJS_clamps_and_pads_witness:
  "formatTimeJS (\<lambda>x. x) sample_parseFloat exponent_text (JNum (Fin (-3))) = ''00:00''
   \<and> formatTimeJS (\<lambda>x. x) sample_parseFloat exponent_text (JStr ''abc'') = ''00:00''
   \<and> minutes_exact (\<lambda>x. x) 119.5
   \<and> formatTimeJS (\<lambda>x. x) sample_parseFloat exponent_text (JNum (Fin 119.5)) = ''02:00''
   \<and> minutes_exact (\<lambda>x. x) 12.5
   \<and> formatTimeJS (\<lambda>x. x) sample_parseFloat exponent_text (JStr ''12.5'') = ''00:13''"
proof -
  note T = formatTimeJS_clamps_and_pads [where pf = sample_parseFloat and other = exponent_text
      and fl = "\<lambda>x. x"]
  have e1: "minutes_exact (\<lambda>x. x) 119.5" by (simp add: minutes_exact_def floor_sample)
  have e2: "minutes_exact (\<lambda>x. x) 12.5" by (simp add: minutes_exact_def floor_sample)
  have a: "formatTimeJS (\<lambda>x. x) sample_parseFloat exponent_text (JNum (Fin (-3))) = ''00:00''"
    using T [where seconds = "JNum (Fin (-3))" and q = 0] by (simp add: sample_parseFloat_def)
  have b: "formatTimeJS (\<lambda>x. x) sample_parseFloat exponent_text (JStr ''abc'') = ''00:00''"
    using T [where seconds = "JStr ''abc''" and q = 0] by (simp add: sample_parseFloat_def)
  note Tc = T [where seconds = "JNum (Fin 119.5)" and q = "119.5", THEN conjunct2, THEN mp,
      THEN conjunct2, THEN conjunct2, THEN mp, THEN conjunct2, THEN conjunct2, THEN mp]
  note Td = T [where seconds = "JStr ''12.5''" and q = "12.5", THEN conjunct2, THEN mp,
      THEN conjunct2, THEN conjunct2, THEN mp, THEN conjunct2, THEN conjunct2, THEN mp]
  have "formatTimeJS (\<lambda>x. x) sample_parseFloat exponent_text (JNum (Fin 119.5))
      = [digit (nat \<lfloor>119.5 + 1 / 2 :: rat\<rfloor> div 60 div 10),
         digit (nat \<lfloor>119.5 + 1 / 2 :: rat\<rfloor> div 60 mod 10)] @ '':''
        @ [digit (nat \<lfloor>119.5 + 1 / 2 :: rat\<rfloor> mod 60 div 10),
           digit (nat \<lfloor>119.5 + 1 / 2 :: rat\<rfloor> mod 60 mod 10)]"
    by (rule Tc [OF _ e1]) (simp add: sample_parseFloat_def, simp only: floor_sample)
  also have "\<dots> = ''02:00''" by (simp only: floor_sample) (simp add: digit_def)
  finally have c:
    "formatTimeJS (\<lambda>x. x) sample_parseFloat exponent_text (JNum (Fin 119.5)) = ''02:00''" .
  have "formatTimeJS (\<lambda>x. x) sample_parseFloat exponent_text (JStr ''12.5'')
      = [digit (nat \<lfloor>12.5 + 1 / 2 :: rat\<rfloor> div 60 div 10),
         digit (nat \<lfloor>12.5 + 1 / 2 :: rat\<rfloor> div 60 mod 10)] @ '':''
        @ [digit (nat \<lfloor>12.5 + 1 / 2 :: rat\<rfloor> mod 60 div 10),
           digit (nat \<lfloor>12.5 + 1 / 2 :: rat\<rfloor> mod 60 mod 10)]"
    by (rule Td [OF _ e2]) (simp add: sample_parseFloat_def, simp only: floor_sample)
  also have "\<dots> = ''00:13''" by (simp only: floor_sample) (simp add: digit_def)
  finally have d:
    "formatTimeJS (\<lambda>x. x) sample_parseFloat exponent_text (JStr ''12.5'') = ''00:13''" .
  from a b e1 c e2 d show ?thesis by (intro conjI)
qed

lemma floor_huge: "\<lfloor>6 * 10 ^ 22 / 60 :: rat\<rfloor> = 10 ^ 21"
proof -
  have "(6 * 10 ^ 22 / 60 :: rat) = of_int (10 ^ 21)" by simp
  then show ?thesis by (simp only: floor_of_int)
qed

text \<open>
  Claim C10 as the specification words it, for every non-negative finite number, does
  not hold. \<open>6 * 10^22\<close> seconds is a double, its quotient by 60 is the double
  \<open>10^21\<close> and its remainder is 0, all without rounding; \<open>String\<close> writes \<open>10^21\<close> as
  \<open>1e+21\<close>, so the result is \<open>1e+21:00\<close>, whose minutes field is not the digits of the
  minutes.
\<close>

theorem huge_time_is_not_minutes_and_seconds:
  "sample_parseFloat (JNum (Fin (6 * 10 ^ 22))) = Some (Fin (6 * 10 ^ 22))
   \<and> formatTimeJS (\<lambda>x. x) sample_parseFloat exponent_text (JNum (Fin (6 * 10 ^ 22)))
       = ''1e+21:00''
   \<and> \<not> minutes_exact (\<lambda>x. x) (6 * 10 ^ 22)"
proof (intro conjI)
  show p: "sample_parseFloat (JNum (Fin (6 * 10 ^ 22))) = Some (Fin (6 * 10 ^ 22))"
    by (simp add: sample_parseFloat_def)
  have z: "\<lfloor>6 * 10 ^ 22 - 60 * of_int (10 ^ 21) + 1 / 2 :: rat\<rfloor> = 0"
    by (rule floor_unique) simp_all
  have "formatTimeJS (\<lambda>x. x) sample_parseFloat exponent_text (JNum (Fin (6 * 10 ^ 22)))
      = (if \<lfloor>6 * 10 ^ 22 - 60 * of_int \<lfloor>6 * 10 ^ 22 / 60 :: rat\<rfloor> + 1 / 2 :: rat\<rfloor> = 60
         then padStart2 (number_text exponent_text
                (Fin (of_int \<lfloor>6 * 10 ^ 22 / 60 :: rat\<rfloor> + 1))) @ '':''
              @ padStart2 (number_text exponent_text (Fin 0))
         else padStart2 (number_text exponent_text
                (Fin (of_int \<lfloor>6 * 10 ^ 22 / 60 :: rat\<rfloor>))) @ '':''
              @ padStart2 (number_text exponent_text
                  (Fin (of_int \<lfloor>6 * 10 ^ 22 - 60 * of_int \<lfloor>6 * 10 ^ 22 / 60 :: rat\<rfloor>
                                + 1 / 2 :: rat\<rfloor>))))"
    by (rule formatTimeJS_unfolded [where fl = "\<lambda>x. x"])
       (simp_all add: sample_parseFloat_def)
  also have "\<dots> = ''1e+21:00''"
    by (simp only: floor_huge z) (simp add: exponent_text_def padStart2_def dec_small digit_def)
  finally show "formatTimeJS (\<lambda>x. x) sample_parseFloat exponent_text (JNum (Fin (6 * 10 ^ 22)))
       = ''1e+21:00''" .
  show "\<not> minutes_exact (\<lambda>x. x) (6 * 10 ^ 22)"
    by (simp add: minutes_exact_def floor_huge)
qed

end
